theory Spec2Isabelle
  imports Complex_Main "HOL-Library.Sublist"
begin

section \<open>Offboard velocity control examples: data model\<close>

text \<open>
  The repository holds two example programs with the same shape
  (\<^verbatim>\<open>offboard_omnidirectional.cpp\<close> and its orthogonal sibling): each has
  \<^verbatim>\<open>usage\<close>, \<^verbatim>\<open>get_system\<close>, \<^verbatim>\<open>offb_ctrl_body\<close> and \<^verbatim>\<open>main\<close>.
  Every call into the communication library, every blocking wait and every line
  written to the console is recorded as an event; a run of a function is the
  list of the events it performs, in program order.

  The velocity components are C++ \<^verbatim>\<open>float\<close>s that the program only stores and
  passes on. Every literal of the source (0.5, 0.25, 22.5, 1.5, 1.0) is a dyadic
  rational that binary floating point holds exactly, so the fields are modelled
  as \<^typ>\<open>real\<close>.
\<close>

record VelocityBodyYawspeed =
  forward_m_s :: real
  right_m_s :: real
  down_m_s :: real
  yawspeed_deg_s :: real

text \<open>
  The result enumerations are declared by the library. The programs compare them
  with \<^verbatim>\<open>Success\<close> only; every other enumerator is kept by its numeric code.
\<close>

datatype ConnectionResult = Connection_Success | Connection_Other nat
datatype ActionResult = Action_Success | Action_Other nat
datatype OffboardResult = Offboard_Success | Offboard_Other nat

text \<open>\<^verbatim>\<open>Telemetry::LandedState\<close> of the library; the programs name \<^verbatim>\<open>InAir\<close> only.\<close>

datatype LandedState = Unknown | OnGround | InAir | TakingOff | Landing

text \<open>A discovered system; the programs ask it for \<^verbatim>\<open>has_autopilot()\<close> only.\<close>

record System =
  has_autopilot :: bool

text \<open>One operand of a \<^verbatim>\<open><<\<close> chain on \<^verbatim>\<open>std::cout\<close> or \<^verbatim>\<open>std::cerr\<close>.\<close>

datatype out =
    Str string
  | Conn ConnectionResult
  | Act ActionResult
  | Offb OffboardResult

text \<open>
  The argument of \<^verbatim>\<open>subscribe_on_new_system\<close> and \<^verbatim>\<open>subscribe_landed_state\<close>: the
  lambda of the program, or \<^verbatim>\<open>nullptr\<close>, which removes the registered callback.
\<close>

datatype callback = Handler | Nullptr

datatype event =
    Cout "out list"
  | Cerr "out list"
  | Add_any_connection string
  | Subscribe_on_new_system callback
  | Prom_set_value System
  | Future_error
  | Wait_for nat
  | Sleep_for nat
  | Health_all_ok
  | Arm
  | Set_takeoff_altitude real
  | Set_current_speed real
  | Takeoff
  | Subscribe_landed_state callback
  | In_air_promise_set_value
  | Set_velocity_body VelocityBodyYawspeed
  | Offboard_start
  | Offboard_stop
  | Land
  | In_air

text \<open>Durations are counted in milliseconds; \<^verbatim>\<open>std::chrono::seconds(n)\<close>:\<close>

definition seconds :: "nat \<Rightarrow> nat" where
  "seconds n = 1000 * n"

section \<open>The setpoint sequence: \<^verbatim>\<open>offb_ctrl_body\<close>\<close>

text \<open>
  The \<^verbatim>\<open>Offboard\<close> plugin, as far as the program observes it: what \<^verbatim>\<open>start()\<close> and
  \<^verbatim>\<open>stop()\<close> answer. The result of \<^verbatim>\<open>set_velocity_body\<close> is discarded by the source.
\<close>

record Offboard =
  start_result :: OffboardResult
  stop_result :: OffboardResult

text \<open>
  \<^verbatim>\<open>Offboard::VelocityBodyYawspeed hover{}\<close>: every field zero. The source declares
  \<^verbatim>\<open>hover\<close> anew before each use (and the two quarter-circle setpoints twice), each
  time with the same value.
\<close>

definition hover :: VelocityBodyYawspeed where
  "hover = \<lparr>forward_m_s = 0, right_m_s = 0, down_m_s = 0, yawspeed_deg_s = 0\<rparr>"

definition fly_forward_right_up :: VelocityBodyYawspeed where
  "fly_forward_right_up = hover\<lparr>forward_m_s := 0.5, right_m_s := 0.5, down_m_s := - 0.25\<rparr>"

definition fly_forward_left_down :: VelocityBodyYawspeed where
  "fly_forward_left_down = hover\<lparr>forward_m_s := 0.5, right_m_s := - 0.5, down_m_s := 0.25\<rparr>"

definition fly_backward_left_up :: VelocityBodyYawspeed where
  "fly_backward_left_up = hover\<lparr>forward_m_s := - 0.5, right_m_s := - 0.5, down_m_s := - 0.25\<rparr>"

definition fly_backward_right_down :: VelocityBodyYawspeed where
  "fly_backward_right_down = hover\<lparr>forward_m_s := - 0.5, right_m_s := 0.5, down_m_s := 0.25\<rparr>"

definition fly_quarter_cirle_up :: VelocityBodyYawspeed where
  "fly_quarter_cirle_up = hover\<lparr>right_m_s := 0.5, down_m_s := - 0.25, yawspeed_deg_s := 22.5\<rparr>"

definition fly_quarter_cirle_down :: VelocityBodyYawspeed where
  "fly_quarter_cirle_down = hover\<lparr>right_m_s := 0.5, down_m_s := 0.25, yawspeed_deg_s := 22.5\<rparr>"

definition fly_forward :: VelocityBodyYawspeed where
  "fly_forward = hover\<lparr>forward_m_s := 0.5\<rparr>"

text \<open>
  \<^verbatim>\<open>offb_ctrl_body\<close> of the omnidirectional program (lines 68 to 182). The function
  is straight-line code with two early returns; the model returns its boolean
  together with the events performed up to the return.
\<close>

definition offb_ctrl_body_omnidirectional :: "Offboard \<Rightarrow> bool \<times> event list" where
  "offb_ctrl_body_omnidirectional offboard =
    (let started =
       [Cout [Str ''Starting Offboard velocity control in body coordinates\<newline>''],
        Set_velocity_body hover,
        Offboard_start]
     in if start_result offboard \<noteq> Offboard_Success then
       (False, started @
          [Cerr [Str ''Offboard start failed: '', Offb (start_result offboard), Str ''\<newline>'']])
     else
       let flown = started @
         [Cout [Str ''Offboard started\<newline>''],
          Cout [Str ''Hover\<newline>''],
          Set_velocity_body hover, Sleep_for (seconds 2),
          Cout [Str ''Fly forward, right, up\<newline>''],
          Set_velocity_body fly_forward_right_up, Sleep_for (seconds 4),
          Cout [Str ''Fly forward, left, down\<newline>''],
          Set_velocity_body fly_forward_left_down, Sleep_for (seconds 4),
          Cout [Str ''Fly backward, left, up\<newline>''],
          Set_velocity_body fly_backward_left_up, Sleep_for (seconds 4),
          Cout [Str ''Fly backward, right, down\<newline>''],
          Set_velocity_body fly_backward_right_down, Sleep_for (seconds 4),
          Cout [Str ''Fly quarter circle up\<newline>''],
          Set_velocity_body fly_quarter_cirle_up, Sleep_for (seconds 4),
          Cout [Str ''Fly quarter circle down\<newline>''],
          Set_velocity_body fly_quarter_cirle_down, Sleep_for (seconds 4),
          Cout [Str ''Fly quarter circle up\<newline>''],
          Set_velocity_body fly_quarter_cirle_up, Sleep_for (seconds 4),
          Cout [Str ''Fly quarter circle down\<newline>''],
          Set_velocity_body fly_quarter_cirle_down, Sleep_for (seconds 4),
          Cout [Str ''Hover\<newline>''],
          Set_velocity_body hover, Sleep_for (seconds 2),
          Offboard_stop]
       in if stop_result offboard \<noteq> Offboard_Success then
         (False, flown @
            [Cerr [Str ''Offboard stop failed: '', Offb (stop_result offboard), Str ''\<newline>'']])
       else
         (True, flown @ [Cout [Str ''Offboard stopped\<newline>'']]))"

text \<open>\<^verbatim>\<open>offb_ctrl_body\<close> of the orthogonal program (lines 344 to 390).\<close>

definition offb_ctrl_body_orthogonal :: "Offboard \<Rightarrow> bool \<times> event list" where
  "offb_ctrl_body_orthogonal offboard =
    (let started =
       [Cout [Str ''Starting Offboard velocity control in body coordinates\<newline>''],
        Set_velocity_body hover,
        Offboard_start]
     in if start_result offboard \<noteq> Offboard_Success then
       (False, started @
          [Cerr [Str ''Offboard start failed: '', Offb (start_result offboard), Str ''\<newline>'']])
     else
       let flown = started @
         [Cout [Str ''Offboard started\<newline>''],
          Cout [Str ''Hover\<newline>''],
          Set_velocity_body hover, Sleep_for (seconds 2),
          Cout [Str ''Fly forward\<newline>''],
          Set_velocity_body fly_forward, Sleep_for (seconds 4),
          Cout [Str ''Hover\<newline>''],
          Set_velocity_body hover, Sleep_for (seconds 2),
          Offboard_stop]
       in if stop_result offboard \<noteq> Offboard_Success then
         (False, flown @
            [Cerr [Str ''Offboard stop failed: '', Offb (stop_result offboard), Str ''\<newline>'']])
       else
         (True, flown @ [Cout [Str ''Offboard stopped\<newline>'']]))"

text \<open>The two programs, and the \<^verbatim>\<open>offb_ctrl_body\<close> each of them links.\<close>

datatype variant = Omnidirectional | Orthogonal

fun offb_ctrl_body :: "variant \<Rightarrow> Offboard \<Rightarrow> bool \<times> event list" where
  "offb_ctrl_body Omnidirectional = offb_ctrl_body_omnidirectional"
| "offb_ctrl_body Orthogonal = offb_ctrl_body_orthogonal"

text \<open>
  The flight script of each program: the setpoints sent between the hover that
  follows the start and the hover that precedes the stop, each with the sleep
  that follows it (omnidirectional: lines 92 to 163; orthogonal: lines 367 to 372).
\<close>

type_synonym SequenceStep = "VelocityBodyYawspeed \<times> nat"

fun steps :: "variant \<Rightarrow> SequenceStep list" where
  "steps Omnidirectional =
     [(fly_forward_right_up, seconds 4),
      (fly_forward_left_down, seconds 4),
      (fly_backward_left_up, seconds 4),
      (fly_backward_right_down, seconds 4),
      (fly_quarter_cirle_up, seconds 4),
      (fly_quarter_cirle_down, seconds 4),
      (fly_quarter_cirle_up, seconds 4),
      (fly_quarter_cirle_down, seconds 4)]"
| "steps Orthogonal = [(fly_forward, seconds 4)]"

text \<open>
  The sequencer as the specification words it (\<^verbatim>\<open>run_sequence\<close>, section 4.2,
  behaviour steps 1 to 6), over the same events, for an arbitrary script. It is
  the reference the two source functions are compared with.
\<close>

datatype SequenceError = StartFailed | StopFailed

definition step_events :: "SequenceStep \<Rightarrow> event list" where
  "step_events st = [Set_velocity_body (fst st), Sleep_for (snd st)]"

definition run_sequence_spec :: "Offboard \<Rightarrow> SequenceStep list \<Rightarrow> (SequenceError + unit) \<times> event list" where
  "run_sequence_spec control_channel sts =
    (let started = [Set_velocity_body hover, Offboard_start]
     in if start_result control_channel \<noteq> Offboard_Success then (Inl StartFailed, started)
     else
       let flown = started @ step_events (hover, seconds 2) @ concat (map step_events sts)
                     @ step_events (hover, seconds 2) @ [Offboard_stop]
       in if stop_result control_channel \<noteq> Offboard_Success then (Inl StopFailed, flown)
          else (Inr (), flown))"

text \<open>Projections of a run.\<close>

fun is_send :: "event \<Rightarrow> bool" where
  "is_send (Set_velocity_body c) = True"
| "is_send e = False"

fun is_console :: "event \<Rightarrow> bool" where
  "is_console (Cout t) = True"
| "is_console (Cerr t) = True"
| "is_console e = False"

definition sends :: "event list \<Rightarrow> event list" where
  "sends tr = filter is_send tr"

definition channel_events :: "event list \<Rightarrow> event list" where
  "channel_events tr = filter (\<lambda>e. \<not> is_console e) tr"

definition occurrences :: "event \<Rightarrow> event list \<Rightarrow> nat" where
  "occurrences e tr = length (filter (\<lambda>x. x = e) tr)"

text \<open>The events of a run that follow the first occurrence of an event.\<close>

fun after :: "event \<Rightarrow> event list \<Rightarrow> event list" where
  "after e [] = []"
| "after e (x # xs) = (if x = e then xs else after e xs)"

section \<open>Waiting for a notification: callback, promise and future\<close>

text \<open>
  \<^verbatim>\<open>get_system\<close> and the takeoff check of \<^verbatim>\<open>main\<close> register a callback with the
  library, which calls it from its own thread, and block on a future until the
  callback fulfils the promise or a timeout passes. The library's thread is
  modelled by the list of notifications it will deliver, in delivery order, each
  with the delay in milliseconds since the previous one (the first: since the
  subscription). A notification that falls due while the control thread blocks
  in \<^verbatim>\<open>wait_for\<close> is handed to the callback registered at that moment, if any.

  The state of one such handshake: whether a callback is registered with the
  notification source, the value of the promise once set, the events so far, and
  the time elapsed.
\<close>

datatype future_status = Ready | Timeout

record 'v handshake =
  subscribed :: bool
  promise :: "'v option"
  events :: "event list"
  clock :: nat

definition emit :: "event \<Rightarrow> 'v handshake \<Rightarrow> 'v handshake" where
  "emit e s = s\<lparr>events := events s @ [e]\<rparr>"

text \<open>
  \<^verbatim>\<open>std::promise::set_value\<close>: stores the value; on a promise that already holds
  one it throws \<^verbatim>\<open>std::future_error\<close> instead.
\<close>

definition set_value :: "event \<Rightarrow> 'v \<Rightarrow> 'v handshake \<Rightarrow> 'v handshake" where
  "set_value e v s =
     (if promise s \<noteq> None then emit Future_error s else (emit e s)\<lparr>promise := Some v\<rparr>)"

definition subscribe_on_new_system :: "callback \<Rightarrow> 'v handshake \<Rightarrow> 'v handshake" where
  "subscribe_on_new_system cb s = (emit (Subscribe_on_new_system cb) s)\<lparr>subscribed := (cb = Handler)\<rparr>"

definition subscribe_landed_state :: "callback \<Rightarrow> 'v handshake \<Rightarrow> 'v handshake" where
  "subscribe_landed_state cb s = (emit (Subscribe_landed_state cb) s)\<lparr>subscribed := (cb = Handler)\<rparr>"

text \<open>
  The lambda of \<^verbatim>\<open>get_system\<close> (lines 42 to 52); its argument stands for
  \<^verbatim>\<open>mavsdk.systems().back()\<close> at the time of the call.
\<close>

definition on_new_system :: "System \<Rightarrow> System handshake \<Rightarrow> System handshake" where
  "on_new_system system s =
     (if has_autopilot system then
        set_value (Prom_set_value system) system
          (subscribe_on_new_system Nullptr
            (emit (Cout [Str ''Discovered autopilot\<newline>'']) s))
      else s)"

text \<open>The lambda of \<^verbatim>\<open>main\<close> (lines 240 to 246).\<close>

definition on_landed_state :: "LandedState \<Rightarrow> unit handshake \<Rightarrow> unit handshake" where
  "on_landed_state state s =
     (if state = InAir then
        set_value In_air_promise_set_value ()
          (subscribe_landed_state Nullptr
            (emit (Cout [Str ''Taking off has finished\<newline>.'']) s))
      else s)"

text \<open>The library delivers one notification: it calls the registered callback, if any.\<close>

definition notify :: "('a \<Rightarrow> 'v handshake \<Rightarrow> 'v handshake) \<Rightarrow> 'a \<Rightarrow> 'v handshake \<Rightarrow> 'v handshake" where
  "notify f x s = (if subscribed s then f x s else s)"

text \<open>
  \<^verbatim>\<open>std::future::wait_for(d)\<close>: returns at once when the promise holds a value;
  otherwise the notifications due strictly before \<open>d\<close> milliseconds have passed
  are delivered one by one until one of them fulfils the promise; when none does,
  the wait ends after \<open>d\<close> milliseconds with \<^verbatim>\<open>timeout\<close>. The notifications not yet
  delivered are returned, the first with the delay that remains.
\<close>

fun wait_for :: "('a \<Rightarrow> 'v handshake \<Rightarrow> 'v handshake) \<Rightarrow> nat \<Rightarrow> (nat \<times> 'a) list \<Rightarrow> 'v handshake
    \<Rightarrow> future_status \<times> (nat \<times> 'a) list \<times> 'v handshake" where
  "wait_for f d [] s =
     (if promise s \<noteq> None then (Ready, [], s) else (Timeout, [], s\<lparr>clock := clock s + d\<rparr>))"
| "wait_for f d ((dt, x) # ds) s =
     (if promise s \<noteq> None then (Ready, (dt, x) # ds, s)
      else if dt < d then wait_for f (d - dt) ds (notify f x (s\<lparr>clock := clock s + dt\<rparr>))
      else (Timeout, (dt - d, x) # ds, s\<lparr>clock := clock s + d\<rparr>))"

text \<open>The notifications the library delivers after the control thread has stopped waiting.\<close>

fun deliver :: "('a \<Rightarrow> 'v handshake \<Rightarrow> 'v handshake) \<Rightarrow> (nat \<times> 'a) list \<Rightarrow> 'v handshake
    \<Rightarrow> 'v handshake" where
  "deliver f [] s = s"
| "deliver f ((dt, x) # ds) s = deliver f ds (notify f x (s\<lparr>clock := clock s + dt\<rparr>))"

text \<open>
  \<^verbatim>\<open>get_system\<close> (lines 35 to 62). The result is the discovered system, or \<open>None\<close>
  for the empty pointer, with the notifications left over and the final state.
\<close>

definition get_system :: "(nat \<times> System) list
    \<Rightarrow> System option \<times> (nat \<times> System) list \<times> System handshake" where
  "get_system ds =
    (let s0 = \<lparr>subscribed = False, promise = None,
               events = [Cout [Str ''Waiting to discover system...\<newline>'']], clock = 0\<rparr>;
         s1 = subscribe_on_new_system Handler s0;
         (status, ds', s2) = wait_for on_new_system (seconds 3) ds (emit (Wait_for (seconds 3)) s1)
     in if status = Timeout then (None, ds', emit (Cerr [Str ''No autopilot found.\<newline>'']) s2)
        else (promise s2, ds', s2))"

text \<open>
  The takeoff check of \<^verbatim>\<open>main\<close> up to its second wait (lines 238 to 248): the
  promise, the subscription, a wait of 10 seconds whose result is discarded, and
  a wait of 3 seconds whose result decides.
\<close>

definition in_air_future_wait :: "(nat \<times> LandedState) list
    \<Rightarrow> future_status \<times> (nat \<times> LandedState) list \<times> unit handshake" where
  "in_air_future_wait ds =
    (let s0 = subscribe_landed_state Handler
                \<lparr>subscribed = False, promise = None, events = [], clock = 0\<rparr>;
         (status1, ds1, s1) =
            wait_for on_landed_state (seconds 10) ds (emit (Wait_for (seconds 10)) s0);
         (status2, ds2, s2) =
            wait_for on_landed_state (seconds 3) ds1 (emit (Wait_for (seconds 3)) s1)
     in (status2, ds2, s2))"

section \<open>The flight routine: \<^verbatim>\<open>main\<close>\<close>

text \<open>
  Everything \<^verbatim>\<open>main\<close> learns from outside: its arguments, the answers of the remote
  calls, the notifications the library will deliver to each subscription, and
  the answers of the two polled predicates (the \<open>i\<close>-th call of
  \<^verbatim>\<open>health_all_ok()\<close> and of \<^verbatim>\<open>in_air()\<close>).
\<close>

record world =
  argc :: int
  bin_name :: string
  connection_url :: string
  connection_result :: ConnectionResult
  new_systems :: "(nat \<times> System) list"
  health_all_ok :: "nat \<Rightarrow> bool"
  arm_result :: ActionResult
  takeoff_result :: ActionResult
  landed_states :: "(nat \<times> LandedState) list"
  offboard :: Offboard
  land_result :: ActionResult
  in_air :: "nat \<Rightarrow> bool"

text \<open>
  The two polling loops have no bound in the source. The model runs each for at
  most \<open>fuel\<close> polls; a run that uses them up is still inside the loop, and is
  reported as such with the events performed so far. A run can also end in
  undefined behaviour: the program has then returned no exit code.
\<close>

datatype run =
    Exit int "event list"
  | Waiting_for_health "event list"
  | Waiting_for_landing "event list"
  | Undefined_behaviour "event list"

fun run_events :: "run \<Rightarrow> event list" where
  "run_events (Exit c tr) = tr"
| "run_events (Waiting_for_health tr) = tr"
| "run_events (Waiting_for_landing tr) = tr"
| "run_events (Undefined_behaviour tr) = tr"

fun preceded_by :: "event list \<Rightarrow> run \<Rightarrow> run" where
  "preceded_by pre (Exit c tr) = Exit c (pre @ tr)"
| "preceded_by pre (Waiting_for_health tr) = Waiting_for_health (pre @ tr)"
| "preceded_by pre (Waiting_for_landing tr) = Waiting_for_landing (pre @ tr)"
| "preceded_by pre (Undefined_behaviour tr) = Undefined_behaviour (pre @ tr)"

text \<open>\<^verbatim>\<open>usage\<close> (lines 25 to 33).\<close>

definition usage :: "string \<Rightarrow> event list" where
  "usage bin =
     [Cerr [Str ''Usage : '', Str bin, Str '' <connection_url>\<newline>'',
            Str ''Connection URL format should be :\<newline>'',
            Str '' For TCP : tcp://[server_host][:server_port]\<newline>'',
            Str '' For UDP : udp://[bind_host][:bind_port]\<newline>'',
            Str '' For Serial : serial:///path/to/serial/dev[:baudrate]\<newline>'',
            Str ''For example, to connect to the simulator use URL: udp://:14540\<newline>'']]"

text \<open>\<^verbatim>\<open>while (!telemetry.health_all_ok())\<close> (lines 214 to 217), from the \<open>i\<close>-th poll on.\<close>

fun health_loop :: "nat \<Rightarrow> (nat \<Rightarrow> bool) \<Rightarrow> nat \<Rightarrow> bool \<times> event list" where
  "health_loop 0 ok i = (False, [])"
| "health_loop (Suc fuel) ok i =
     (if ok i then (True, [Health_all_ok])
      else case health_loop fuel ok (Suc i) of (finished, tr) \<Rightarrow>
        (finished,
         [Health_all_ok, Cout [Str ''Waiting for system to be ready\<newline>''],
          Sleep_for (seconds 1)] @ tr))"

text \<open>\<^verbatim>\<open>while (telemetry.in_air())\<close> (lines 266 to 269), from the \<open>i\<close>-th poll on.\<close>

fun landing_loop :: "nat \<Rightarrow> (nat \<Rightarrow> bool) \<Rightarrow> nat \<Rightarrow> bool \<times> event list" where
  "landing_loop 0 air i = (False, [])"
| "landing_loop (Suc fuel) air i =
     (if \<not> air i then (True, [In_air])
      else case landing_loop fuel air (Suc i) of (finished, tr) \<Rightarrow>
        (finished,
         [In_air, Cout [Str ''Vehicle is landing...\<newline>''], Sleep_for (seconds 1)] @ tr))"

text \<open>
  \<^verbatim>\<open>main\<close> is one function in the source; it is cut here at its stages, each
  definition continuing with the next. The two programs differ in the takeoff
  altitude and in the \<^verbatim>\<open>offb_ctrl_body\<close> they call, and in nothing else. The line
  numbers given are those of the omnidirectional program (\<^verbatim>\<open>main\<close>: lines 187 to
  277); the orthogonal \<^verbatim>\<open>main\<close> is lines 395 to 485 and \<^verbatim>\<open>get_system\<close> lines 311 to 338.
\<close>

fun takeoff_altitude :: "variant \<Rightarrow> real" where
  "takeoff_altitude Omnidirectional = 1.5"
| "takeoff_altitude Orthogonal = 1.0"

text \<open>Landing (lines 258 to 276).\<close>

definition main_landing :: "nat \<Rightarrow> world \<Rightarrow> run" where
  "main_landing fuel w =
    (if land_result w \<noteq> Action_Success then
       Exit 1 [Land, Cerr [Str ''Landing failed: '', Act (land_result w), Str ''\<newline>'']]
     else case landing_loop fuel (in_air w) 0 of
       (False, tr) \<Rightarrow> Waiting_for_landing (Land # tr)
     | (True, tr) \<Rightarrow>
         Exit 0 (Land # tr @
           [Cout [Str ''Landed!\<newline>''], Sleep_for (seconds 3), Cout [Str ''Finished...\<newline>'']]))"

text \<open>Velocity control (lines 253 to 256).\<close>

definition main_offboard :: "variant \<Rightarrow> nat \<Rightarrow> world \<Rightarrow> run" where
  "main_offboard v fuel w =
    (case offb_ctrl_body v (offboard w) of
       (False, tr) \<Rightarrow> Exit 1 tr
     | (True, tr) \<Rightarrow> preceded_by tr (main_landing fuel w))"

text \<open>
  The takeoff check (lines 237 to 251). Notifications that arrive after the
  second wait has returned find the state of the handshake as that wait left it;
  \<^verbatim>\<open>main\<close> does not look at it again.
\<close>

definition main_in_air :: "variant \<Rightarrow> nat \<Rightarrow> world \<Rightarrow> run" where
  "main_in_air v fuel w =
    (case in_air_future_wait (landed_states w) of (status, ds, s) \<Rightarrow>
       if status = Timeout then Exit 1 (events s @ [Cerr [Str ''Takeoff timed out.\<newline>'']])
       else preceded_by (events s) (main_offboard v fuel w))"

text \<open>Takeoff (lines 228 to 235).\<close>

definition main_takeoff :: "variant \<Rightarrow> nat \<Rightarrow> world \<Rightarrow> run" where
  "main_takeoff v fuel w =
    (let tr = [Set_takeoff_altitude (takeoff_altitude v), Set_current_speed 0.25, Takeoff]
     in if takeoff_result w \<noteq> Action_Success then
          Exit 1 (tr @ [Cerr [Str ''Takeoff failed: '', Act (takeoff_result w), Str ''\<newline>'']])
        else preceded_by tr (main_in_air v fuel w))"

text \<open>Waiting for health, and arming (lines 213 to 226).\<close>

definition main_arm :: "variant \<Rightarrow> nat \<Rightarrow> world \<Rightarrow> run" where
  "main_arm v fuel w =
    (case health_loop fuel (health_all_ok w) 0 of
       (False, tr) \<Rightarrow> Waiting_for_health tr
     | (True, tr) \<Rightarrow>
         let tr' = tr @ [Cout [Str ''System is ready\<newline>''], Arm]
         in if arm_result w \<noteq> Action_Success then
              Exit 1 (tr' @ [Cerr [Str ''Arming failed: '', Act (arm_result w), Str ''\<newline>'']])
            else preceded_by (tr' @ [Cout [Str ''Armed\<newline>'']]) (main_takeoff v fuel w))"

text \<open>
  Arguments, connection and discovery (lines 187 to 211). The constructors of the
  three plugins perform no call that the program observes.

  With a wrong argument count \<^verbatim>\<open>main\<close> calls \<^verbatim>\<open>usage(argv[0])\<close>, which builds a
  \<^verbatim>\<open>std::string\<close> from \<^verbatim>\<open>argv[0]\<close> before it prints anything. The argument count is
  never negative, and when it is 0, \<^verbatim>\<open>argv[0]\<close> is the null pointer: building the
  string is undefined behaviour (the usual library throws, and the program
  aborts), nothing is printed and \<^verbatim>\<open>main\<close> does not reach its \<^verbatim>\<open>return 1\<close>. The field
  \<^verbatim>\<open>bin_name\<close> is \<^verbatim>\<open>argv[0]\<close> when there is one, \<^verbatim>\<open>connection_url\<close> is \<^verbatim>\<open>argv[1]\<close>.
\<close>

definition main :: "variant \<Rightarrow> nat \<Rightarrow> world \<Rightarrow> run" where
  "main v fuel w =
    (if argc w \<noteq> 2 then
       (if argc w \<le> 0 then Undefined_behaviour [] else Exit 1 (usage (bin_name w)))
     else if connection_result w \<noteq> Connection_Success then
       Exit 1 [Add_any_connection (connection_url w),
               Cerr [Str ''Connection failed: '', Conn (connection_result w), Str ''\<newline>'']]
     else case get_system (new_systems w) of
       (None, ds, s) \<Rightarrow> Exit 1 (Add_any_connection (connection_url w) # events s)
     | (Some system, ds, s) \<Rightarrow>
         preceded_by (Add_any_connection (connection_url w) # events s) (main_arm v fuel w))"

text \<open>Classes of events.\<close>

fun is_subscribe :: "event \<Rightarrow> bool" where
  "is_subscribe (Subscribe_on_new_system cb) = (cb = Handler)"
| "is_subscribe (Subscribe_landed_state cb) = (cb = Handler)"
| "is_subscribe e = False"

fun is_unsubscribe :: "event \<Rightarrow> bool" where
  "is_unsubscribe (Subscribe_on_new_system cb) = (cb = Nullptr)"
| "is_unsubscribe (Subscribe_landed_state cb) = (cb = Nullptr)"
| "is_unsubscribe e = False"

fun is_resolution :: "event \<Rightarrow> bool" where
  "is_resolution (Prom_set_value system) = True"
| "is_resolution In_air_promise_set_value = True"
| "is_resolution e = False"

fun is_cerr :: "event \<Rightarrow> bool" where
  "is_cerr (Cerr t) = True"
| "is_cerr e = False"

fun is_action_call :: "event \<Rightarrow> bool" where
  "is_action_call Arm = True"
| "is_action_call (Set_takeoff_altitude a) = True"
| "is_action_call (Set_current_speed a) = True"
| "is_action_call Takeoff = True"
| "is_action_call Land = True"
| "is_action_call e = False"

fun is_remote_call :: "event \<Rightarrow> bool" where
  "is_remote_call (Add_any_connection url) = True"
| "is_remote_call Offboard_start = True"
| "is_remote_call Offboard_stop = True"
| "is_remote_call e = is_action_call e"

text \<open>Vocabulary for the shape of a flight script.\<close>

fun sent_commands :: "event list \<Rightarrow> VelocityBodyYawspeed list" where
  "sent_commands [] = []"
| "sent_commands (Set_velocity_body c # tr) = c # sent_commands tr"
| "sent_commands (e # tr) = sent_commands tr"

text \<open>A command with positive forward velocity, and later one with negative forward velocity.\<close>

fun forward_then_backward :: "VelocityBodyYawspeed list \<Rightarrow> bool" where
  "forward_then_backward [] = False"
| "forward_then_backward (c # cs) =
     ((0 < forward_m_s c \<and> list_ex (\<lambda>c'. forward_m_s c' < 0) cs) \<or> forward_then_backward cs)"

text \<open>
  Distance covered along the body axes (metres) and angle turned (degrees) while a
  step's velocity is held for its dwell time.
\<close>

definition displacement :: "SequenceStep \<Rightarrow> real \<times> real \<times> real" where
  "displacement st =
     (forward_m_s (fst st) * (real (snd st) / 1000),
      right_m_s (fst st) * (real (snd st) / 1000),
      down_m_s (fst st) * (real (snd st) / 1000))"

definition yaw_turn :: "SequenceStep \<Rightarrow> real" where
  "yaw_turn st = yawspeed_deg_s (fst st) * (real (snd st) / 1000)"

text \<open>
  The events of a handshake proper: subscriptions, removals of the subscription,
  fulfilments of the promise, and the error of fulfilling it twice.
\<close>

definition handshake_events :: "event list \<Rightarrow> event list" where
  "handshake_events tr =
     filter (\<lambda>e. is_subscribe e \<or> is_unsubscribe e \<or> is_resolution e \<or> e = Future_error) tr"

text \<open>
  The two states a handshake can be in. Waiting: the callback is registered, the
  promise is empty, and the only handshake event so far is the subscription.
  Resolved: the callback has been removed and the promise fulfilled, once each
  and in this order.
\<close>

definition in_air_handshake_ok :: "unit handshake \<Rightarrow> bool" where
  "in_air_handshake_ok s =
     (if promise s = None
      then subscribed s \<and> handshake_events (events s) = [Subscribe_landed_state Handler]
      else \<not> subscribed s \<and> handshake_events (events s) =
             [Subscribe_landed_state Handler, Subscribe_landed_state Nullptr,
              In_air_promise_set_value])"

definition discovery_handshake_ok :: "System handshake \<Rightarrow> bool" where
  "discovery_handshake_ok s =
     (case promise s of
        None \<Rightarrow> subscribed s \<and> handshake_events (events s) = [Subscribe_on_new_system Handler]
      | Some system \<Rightarrow> \<not> subscribed s \<and> has_autopilot system \<and> handshake_events (events s) =
             [Subscribe_on_new_system Handler, Subscribe_on_new_system Nullptr,
              Prom_set_value system])"

text \<open>
  The time, counted from the subscription, at which the first landed-state
  notification \<^verbatim>\<open>InAir\<close> arrives, if any does.
\<close>

fun first_in_air :: "(nat \<times> LandedState) list \<Rightarrow> nat option" where
  "first_in_air [] = None"
| "first_in_air ((dt, x) # ds) =
     (if x = InAir then Some dt else map_option (\<lambda>t. dt + t) (first_in_air ds))"

text \<open>A flight in which every stage succeeds, used to exercise the theorems.\<close>

definition nominal :: world where
  "nominal =
     \<lparr>argc = 2, bin_name = ''offboard'', connection_url = ''udp://:14540'',
      connection_result = Connection_Success,
      new_systems = [(500, \<lparr>has_autopilot = False\<rparr>), (700, \<lparr>has_autopilot = True\<rparr>)],
      health_all_ok = (\<lambda>i. 2 \<le> i),
      arm_result = Action_Success,
      takeoff_result = Action_Success,
      landed_states = [(100, OnGround), (2000, TakingOff), (9000, InAir), (100, InAir)],
      offboard = \<lparr>start_result = Offboard_Success, stop_result = Offboard_Success\<rparr>,
      land_result = Action_Success,
      in_air = (\<lambda>i. i < 3)\<rparr>"

text \<open>The remote calls of a complete flight, in the order \<^verbatim>\<open>main\<close> makes them.\<close>

definition plan :: "variant \<Rightarrow> world \<Rightarrow> event list" where
  "plan v w =
     [Add_any_connection (connection_url w), Arm,
      Set_takeoff_altitude (takeoff_altitude v), Set_current_speed 0.25, Takeoff,
      Offboard_start, Offboard_stop, Land]"

text \<open>A stretch of a run with no failure report and no remote call.\<close>

definition quiet :: "event list \<Rightarrow> bool" where
  "quiet tr = (\<not> list_ex is_cerr tr \<and> filter is_remote_call tr = [])"

text \<open>
  What the run of \<^verbatim>\<open>main\<close> from one of its stages on has to satisfy, given the
  remote calls \<open>calls\<close> that a complete flight still has to make from there, the
  lists \<open>cuts\<close> of remote calls at which a run may stop, and whether every check
  from there on succeeds (\<open>ok\<close>): a run that returns, returns 0 after exactly the
  calls \<open>calls\<close> and without a failure report if \<open>ok\<close>, and returns 1 with a failure
  report as its last event, and no other, if not; a run still polling, or one
  ended by undefined behaviour, has reported no failure.
\<close>

definition stage_ok :: "event list set \<Rightarrow> event list \<Rightarrow> bool \<Rightarrow> run \<Rightarrow> bool" where
  "stage_ok cuts calls ok r =
     (filter is_remote_call (run_events r) \<in> cuts
      \<and> (case r of
           Exit c tr \<Rightarrow>
             (if ok then c = 0 \<and> \<not> list_ex is_cerr tr \<and> filter is_remote_call tr = calls
              else c = 1 \<and> tr \<noteq> [] \<and> is_cerr (last tr) \<and> \<not> list_ex is_cerr (butlast tr))
         | Waiting_for_health tr \<Rightarrow> \<not> list_ex is_cerr tr
         | Waiting_for_landing tr \<Rightarrow> \<not> list_ex is_cerr tr
         | Undefined_behaviour tr \<Rightarrow> \<not> list_ex is_cerr tr))"

fun is_exit :: "run \<Rightarrow> bool" where
  "is_exit (Exit c tr) = True"
| "is_exit r = False"

text \<open>
  The setpoints of a run that are held: each command that is directly followed
  by a sleep, with the duration of that sleep in milliseconds.
\<close>

fun setpoints :: "event list \<Rightarrow> SequenceStep list" where
  "setpoints (Set_velocity_body c # Sleep_for d # tr) = (c, d) # setpoints tr"
| "setpoints (e # tr) = setpoints tr"
| "setpoints [] = []"

text \<open>
  Four displacements (forward, right, down) whose horizontal parts are the sides
  of a square flown in turn: they add up to nothing, they have the same non-zero
  length, and each is at a right angle to the next.
\<close>

fun square_legs :: "(real \<times> real \<times> real) list \<Rightarrow> bool" where
  "square_legs [(f1, r1, d1), (f2, r2, d2), (f3, r3, d3), (f4, r4, d4)] =
     (f1 + f2 + f3 + f4 = 0 \<and> r1 + r2 + r3 + r4 = 0
      \<and> 0 < f1 * f1 + r1 * r1
      \<and> f2 * f2 + r2 * r2 = f1 * f1 + r1 * r1
      \<and> f3 * f3 + r3 * r3 = f1 * f1 + r1 * r1
      \<and> f4 * f4 + r4 * r4 = f1 * f1 + r1 * r1
      \<and> f1 * f2 + r1 * r2 = 0 \<and> f2 * f3 + r2 * r3 = 0
      \<and> f3 * f4 + r3 * r4 = 0 \<and> f4 * f1 + r4 * r1 = 0)"
| "square_legs ds = False"

text \<open>
  The events of the landing stage of a run that ends with the vehicle on the
  ground: \<^verbatim>\<open>land()\<close>, \<open>k\<close> polls of \<^verbatim>\<open>in_air()\<close> answered true, each with its message
  and its sleep of a second, the poll answered false, and the closing lines.
\<close>

definition landing :: "nat \<Rightarrow> event list" where
  "landing k =
     Land # concat (replicate k
        [In_air, Cout [Str ''Vehicle is landing...\<newline>''], Sleep_for (seconds 1)])
     @ [In_air, Cout [Str ''Landed!\<newline>''], Sleep_for (seconds 3),
        Cout [Str ''Finished...\<newline>'']]"

text \<open>
  A run that returns 0 ends with the landing stage, the in-air poll having
  answered true \<open>k\<close> times and then false.
\<close>

definition grounded :: "world \<Rightarrow> nat \<Rightarrow> run \<Rightarrow> bool" where
  "grounded w fuel r =
     (\<forall>tr. r = Exit 0 tr \<longrightarrow>
        (\<exists>k<fuel. \<not> in_air w k \<and> (\<forall>j<k. in_air w j) \<and> suffix (landing k) tr))"

fun is_undefined :: "run \<Rightarrow> bool" where
  "is_undefined (Undefined_behaviour tr) = True"
| "is_undefined r = False"

section \<open>Properties of the setpoint sequence\<close>

lemma sends_concat_steps:
  "filter is_send (concat (map step_events sts)) = map (Set_velocity_body \<circ> fst) sts"
  by (induction sts) (simp_all add: step_events_def)

lemma start_not_in_steps: "filter (\<lambda>x. x = Offboard_start) (concat (map step_events sts)) = []"
  by (induction sts) (simp_all add: step_events_def)

lemma stop_not_in_steps: "filter (\<lambda>x. x = Offboard_stop) (concat (map step_events sts)) = []"
  by (induction sts) (simp_all add: step_events_def)

text \<open>
  Both source functions perform, console output apart, exactly the events of the
  specification's sequencer run on their script, and return true exactly when it
  succeeds.
\<close>

lemma offb_refines:
  "channel_events (snd (offb_ctrl_body v ch)) = snd (run_sequence_spec ch (steps v))"
  by (cases v) (simp_all add: offb_ctrl_body_omnidirectional_def offb_ctrl_body_orthogonal_def
      run_sequence_spec_def channel_events_def step_events_def Let_def)

lemma offb_result:
  "fst (offb_ctrl_body v ch) = (fst (run_sequence_spec ch (steps v)) = Inr ())"
  by (cases v) (simp_all add: offb_ctrl_body_omnidirectional_def offb_ctrl_body_orthogonal_def
      run_sequence_spec_def Let_def)

lemma sends_console: "sends tr = sends (channel_events tr)"
  by (induction tr) (auto simp: sends_def channel_events_def elim: is_send.elims)

lemma occ_console: "\<not> is_console e \<Longrightarrow> occurrences e tr = occurrences e (channel_events tr)"
  by (induction tr) (auto simp: occurrences_def channel_events_def)

lemma spec_sends:
  "start_result ch = Offboard_Success \<Longrightarrow>
   sends (snd (run_sequence_spec ch sts)) =
     map Set_velocity_body ([hover, hover] @ map fst sts @ [hover])"
  by (simp add: run_sequence_spec_def sends_def step_events_def Let_def sends_concat_steps)

lemma spec_start: "occurrences Offboard_start (snd (run_sequence_spec ch sts)) = 1"
  by (simp add: run_sequence_spec_def occurrences_def step_events_def Let_def start_not_in_steps)

lemma spec_stop:
  "occurrences Offboard_stop (snd (run_sequence_spec ch sts)) =
     (if start_result ch = Offboard_Success then 1 else 0)"
  by (simp add: run_sequence_spec_def occurrences_def step_events_def Let_def stop_not_in_steps)

text \<open>
  Claim C1. When the start call and the stop call both succeed, \<^verbatim>\<open>offb_ctrl_body\<close>
  of either program returns true and sends exactly \<open>length (steps v) + 3\<close> velocity
  commands: the neutral one before the start, the neutral one after it, one per
  step of its (non-empty) script, and the final neutral one; it calls start
  exactly once and stop exactly once. Console output apart, its events are those
  of the specification's \<^verbatim>\<open>run_sequence\<close> on that script, and \<^verbatim>\<open>run_sequence\<close> has
  the same counts for every non-empty script.
\<close>

theorem offb_ctrl_body_send_count:
  assumes "start_result ch = Offboard_Success" and "stop_result ch = Offboard_Success"
  shows "(\<forall>v. steps v \<noteq> []
            \<and> fst (offb_ctrl_body v ch)
            \<and> channel_events (snd (offb_ctrl_body v ch)) = snd (run_sequence_spec ch (steps v))
            \<and> sends (snd (offb_ctrl_body v ch)) =
                map Set_velocity_body ([hover, hover] @ map fst (steps v) @ [hover])
            \<and> length (sends (snd (offb_ctrl_body v ch))) = length (steps v) + 3
            \<and> occurrences Offboard_start (snd (offb_ctrl_body v ch)) = 1
            \<and> occurrences Offboard_stop (snd (offb_ctrl_body v ch)) = 1)
       \<and> (\<forall>sts. sts \<noteq> [] \<longrightarrow>
            fst (run_sequence_spec ch sts) = Inr ()
            \<and> length (sends (snd (run_sequence_spec ch sts))) = length sts + 3
            \<and> occurrences Offboard_start (snd (run_sequence_spec ch sts)) = 1
            \<and> occurrences Offboard_stop (snd (run_sequence_spec ch sts)) = 1)"
proof -
  have spec: "fst (run_sequence_spec ch sts) = Inr ()
      \<and> length (sends (snd (run_sequence_spec ch sts))) = length sts + 3
      \<and> occurrences Offboard_start (snd (run_sequence_spec ch sts)) = 1
      \<and> occurrences Offboard_stop (snd (run_sequence_spec ch sts)) = 1" for sts
    using assms
    by (simp add: spec_sends spec_start spec_stop) (simp add: run_sequence_spec_def Let_def)
  have src: "steps v \<noteq> []
            \<and> fst (offb_ctrl_body v ch)
            \<and> channel_events (snd (offb_ctrl_body v ch)) = snd (run_sequence_spec ch (steps v))
            \<and> sends (snd (offb_ctrl_body v ch)) =
                map Set_velocity_body ([hover, hover] @ map fst (steps v) @ [hover])
            \<and> length (sends (snd (offb_ctrl_body v ch))) = length (steps v) + 3
            \<and> occurrences Offboard_start (snd (offb_ctrl_body v ch)) = 1
            \<and> occurrences Offboard_stop (snd (offb_ctrl_body v ch)) = 1" for v
  proof -
    have ne: "steps v \<noteq> []" by (cases v) simp_all
    have s: "sends (snd (offb_ctrl_body v ch)) =
                map Set_velocity_body ([hover, hover] @ map fst (steps v) @ [hover])"
      using assms
      by (simp only: sends_console [of "snd (offb_ctrl_body v ch)"] offb_refines spec_sends)
    have "occurrences Offboard_start (snd (offb_ctrl_body v ch)) = 1"
      by (simp add: occ_console offb_refines spec_start)
    moreover have "occurrences Offboard_stop (snd (offb_ctrl_body v ch)) = 1"
      using assms by (simp add: occ_console offb_refines spec_stop)
    moreover have "fst (offb_ctrl_body v ch)"
      using spec [of "steps v"] by (simp add: offb_result)
    ultimately show ?thesis using ne s by (simp add: offb_refines)
  qed
  from spec src show ?thesis by blast
qed

theorem offb_ctrl_body_send_count_witness:
  "start_result \<lparr>start_result = Offboard_Success, stop_result = Offboard_Success\<rparr> = Offboard_Success
   \<and> stop_result \<lparr>start_result = Offboard_Success, stop_result = Offboard_Success\<rparr> = Offboard_Success
   \<and> [(fly_forward, seconds 4)] \<noteq> []
   \<and> length (sends (snd (offb_ctrl_body Orthogonal
        \<lparr>start_result = Offboard_Success, stop_result = Offboard_Success\<rparr>))) = 4
   \<and> length (sends (snd (offb_ctrl_body Omnidirectional
        \<lparr>start_result = Offboard_Success, stop_result = Offboard_Success\<rparr>))) = 11
   \<and> length (sends (snd (run_sequence_spec
        \<lparr>start_result = Offboard_Success, stop_result = Offboard_Success\<rparr>
        [(fly_forward, seconds 4)]))) = 4"
proof -
  let ?ch = "\<lparr>start_result = Offboard_Success, stop_result = Offboard_Success\<rparr>"
  have h1: "start_result ?ch = Offboard_Success" and h2: "stop_result ?ch = Offboard_Success"
    by simp_all
  note t = offb_ctrl_body_send_count [OF h1 h2]
  from t have a:
    "length (sends (snd (offb_ctrl_body Orthogonal ?ch))) = length (steps Orthogonal) + 3"
    by blast
  from t have b:
    "length (sends (snd (offb_ctrl_body Omnidirectional ?ch))) = length (steps Omnidirectional) + 3"
    by blast
  from t have c: "length (sends (snd (run_sequence_spec ?ch [(fly_forward, seconds 4)])))
      = length [(fly_forward, seconds 4)] + 3"
    by blast
  show ?thesis using a b c by simp
qed

text \<open>
  Claim C2. When the start call fails, \<^verbatim>\<open>offb_ctrl_body\<close> returns false (the
  specification's \<^verbatim>\<open>StartFailed\<close>) at once: after the start call it only reports the
  failure, the one command sent is the neutral one that precedes the start, and
  stop is not called. On any run, a stop call implies that start succeeded.
\<close>

theorem offb_ctrl_body_start_failed:
  assumes "start_result ch \<noteq> Offboard_Success"
  shows "\<not> fst (offb_ctrl_body v ch)
       \<and> fst (run_sequence_spec ch (steps v)) = Inl StartFailed
       \<and> after Offboard_start (snd (offb_ctrl_body v ch)) =
            [Cerr [Str ''Offboard start failed: '', Offb (start_result ch), Str ''\<newline>'']]
       \<and> sends (snd (offb_ctrl_body v ch)) = [Set_velocity_body hover]
       \<and> Offboard_stop \<notin> set (snd (offb_ctrl_body v ch))
       \<and> (\<forall>ch'. Offboard_stop \<in> set (snd (offb_ctrl_body v ch')) \<longrightarrow>
             start_result ch' = Offboard_Success)"
proof -
  have "Offboard_stop \<in> set (snd (offb_ctrl_body v ch')) \<Longrightarrow> start_result ch' = Offboard_Success"
    for ch'
    by (cases v; cases "start_result ch' = Offboard_Success")
       (simp_all add: offb_ctrl_body_omnidirectional_def offb_ctrl_body_orthogonal_def Let_def)
  moreover have "\<not> fst (offb_ctrl_body v ch)
       \<and> fst (run_sequence_spec ch (steps v)) = Inl StartFailed
       \<and> after Offboard_start (snd (offb_ctrl_body v ch)) =
            [Cerr [Str ''Offboard start failed: '', Offb (start_result ch), Str ''\<newline>'']]
       \<and> sends (snd (offb_ctrl_body v ch)) = [Set_velocity_body hover]
       \<and> Offboard_stop \<notin> set (snd (offb_ctrl_body v ch))"
    using assms
    by (cases v)
       (simp_all add: offb_ctrl_body_omnidirectional_def offb_ctrl_body_orthogonal_def
          run_sequence_spec_def sends_def Let_def)
  ultimately show ?thesis by blast
qed

theorem offb_ctrl_body_start_failed_witness:
  "start_result \<lparr>start_result = Offboard_Other 7, stop_result = Offboard_Success\<rparr> \<noteq> Offboard_Success
   \<and> offb_ctrl_body Orthogonal \<lparr>start_result = Offboard_Other 7, stop_result = Offboard_Success\<rparr> =
      (False,
       [Cout [Str ''Starting Offboard velocity control in body coordinates\<newline>''],
        Set_velocity_body hover, Offboard_start,
        Cerr [Str ''Offboard start failed: '', Offb (Offboard_Other 7), Str ''\<newline>'']])
   \<and> Offboard_stop \<in> set (snd (offb_ctrl_body Orthogonal
        \<lparr>start_result = Offboard_Success, stop_result = Offboard_Other 3\<rparr>))
   \<and> start_result \<lparr>start_result = Offboard_Success, stop_result = Offboard_Other 3\<rparr>
        = Offboard_Success"
proof -
  let ?ch = "\<lparr>start_result = Offboard_Other 7, stop_result = Offboard_Success\<rparr>"
  let ?ch' = "\<lparr>start_result = Offboard_Success, stop_result = Offboard_Other 3\<rparr>"
  have h: "start_result ?ch \<noteq> Offboard_Success" by simp
  have m: "Offboard_stop \<in> set (snd (offb_ctrl_body Orthogonal ?ch'))"
    by (simp add: offb_ctrl_body_orthogonal_def Let_def)
  from offb_ctrl_body_start_failed [OF h, of Orthogonal] m
  have "start_result ?ch' = Offboard_Success" by blast
  moreover from offb_ctrl_body_start_failed [OF h, of Orthogonal]
  have "\<not> fst (offb_ctrl_body Orthogonal ?ch)" by blast
  ultimately show ?thesis using h m
    by (simp add: offb_ctrl_body_orthogonal_def Let_def)
qed

text \<open>
  Claim C3. When the start call and the stop call succeed, \<^verbatim>\<open>offb_ctrl_body\<close> returns
  true, and the calls it makes after the start are, console output apart,
  exactly: the neutral command and its 2 second sleep, then for each step of the
  script, in the script's order, its command followed by the sleep of its dwell
  time, then the neutral command and its 2 second sleep, then the stop. No step
  is missing or out of place, and a sleep of the step's duration lies between
  each command and the next. The lists are written out for both programs. The
  specification's \<^verbatim>\<open>run_sequence\<close> does the same for every script.
\<close>

theorem offb_ctrl_body_steps_in_order:
  assumes "start_result ch = Offboard_Success" and "stop_result ch = Offboard_Success"
  shows "fst (offb_ctrl_body v ch)
       \<and> channel_events (after Offboard_start (snd (offb_ctrl_body v ch))) =
           concat (map step_events ((hover, seconds 2) # steps v @ [(hover, seconds 2)]))
             @ [Offboard_stop]
       \<and> channel_events (after Offboard_start (snd (offb_ctrl_body Omnidirectional ch))) =
           [Set_velocity_body hover, Sleep_for (seconds 2),
            Set_velocity_body fly_forward_right_up, Sleep_for (seconds 4),
            Set_velocity_body fly_forward_left_down, Sleep_for (seconds 4),
            Set_velocity_body fly_backward_left_up, Sleep_for (seconds 4),
            Set_velocity_body fly_backward_right_down, Sleep_for (seconds 4),
            Set_velocity_body fly_quarter_cirle_up, Sleep_for (seconds 4),
            Set_velocity_body fly_quarter_cirle_down, Sleep_for (seconds 4),
            Set_velocity_body fly_quarter_cirle_up, Sleep_for (seconds 4),
            Set_velocity_body fly_quarter_cirle_down, Sleep_for (seconds 4),
            Set_velocity_body hover, Sleep_for (seconds 2),
            Offboard_stop]
       \<and> channel_events (after Offboard_start (snd (offb_ctrl_body Orthogonal ch))) =
           [Set_velocity_body hover, Sleep_for (seconds 2),
            Set_velocity_body fly_forward, Sleep_for (seconds 4),
            Set_velocity_body hover, Sleep_for (seconds 2),
            Offboard_stop]
       \<and> (\<forall>sts. fst (run_sequence_spec ch sts) = Inr ()
             \<and> after Offboard_start (snd (run_sequence_spec ch sts)) =
                 concat (map step_events ((hover, seconds 2) # sts @ [(hover, seconds 2)]))
                   @ [Offboard_stop])"
proof -
  have ok: "fst (offb_ctrl_body u ch)" for u
    using assms
    by (cases u)
       (simp_all add: offb_ctrl_body_omnidirectional_def offb_ctrl_body_orthogonal_def Let_def)
  have ev: "channel_events (after Offboard_start (snd (offb_ctrl_body u ch))) =
           concat (map step_events ((hover, seconds 2) # steps u @ [(hover, seconds 2)]))
             @ [Offboard_stop]" for u
    using assms
    by (cases u)
       (simp_all add: offb_ctrl_body_omnidirectional_def offb_ctrl_body_orthogonal_def Let_def
          channel_events_def step_events_def)
  have sp: "fst (run_sequence_spec ch sts) = Inr ()
        \<and> after Offboard_start (snd (run_sequence_spec ch sts)) =
           concat (map step_events ((hover, seconds 2) # sts @ [(hover, seconds 2)]))
             @ [Offboard_stop]" for sts
    using assms by (simp add: run_sequence_spec_def Let_def step_events_def)
  from ok [of v] ev [of v] ev [of Omnidirectional] ev [of Orthogonal] sp show ?thesis
    by (simp add: step_events_def)
qed

theorem offb_ctrl_body_steps_in_order_witness:
  "start_result \<lparr>start_result = Offboard_Success, stop_result = Offboard_Success\<rparr> = Offboard_Success
   \<and> stop_result \<lparr>start_result = Offboard_Success, stop_result = Offboard_Success\<rparr> = Offboard_Success
   \<and> fst (offb_ctrl_body Omnidirectional
        \<lparr>start_result = Offboard_Success, stop_result = Offboard_Success\<rparr>)
   \<and> channel_events (after Offboard_start (snd (offb_ctrl_body Omnidirectional
        \<lparr>start_result = Offboard_Success, stop_result = Offboard_Success\<rparr>))) =
      [Set_velocity_body
         \<lparr>forward_m_s = 0, right_m_s = 0, down_m_s = 0, yawspeed_deg_s = 0\<rparr>, Sleep_for 2000,
       Set_velocity_body
         \<lparr>forward_m_s = 0.5, right_m_s = 0.5, down_m_s = - 0.25, yawspeed_deg_s = 0\<rparr>,
       Sleep_for 4000,
       Set_velocity_body
         \<lparr>forward_m_s = 0.5, right_m_s = - 0.5, down_m_s = 0.25, yawspeed_deg_s = 0\<rparr>,
       Sleep_for 4000,
       Set_velocity_body
         \<lparr>forward_m_s = - 0.5, right_m_s = - 0.5, down_m_s = - 0.25, yawspeed_deg_s = 0\<rparr>,
       Sleep_for 4000,
       Set_velocity_body
         \<lparr>forward_m_s = - 0.5, right_m_s = 0.5, down_m_s = 0.25, yawspeed_deg_s = 0\<rparr>,
       Sleep_for 4000,
       Set_velocity_body
         \<lparr>forward_m_s = 0, right_m_s = 0.5, down_m_s = - 0.25, yawspeed_deg_s = 22.5\<rparr>,
       Sleep_for 4000,
       Set_velocity_body
         \<lparr>forward_m_s = 0, right_m_s = 0.5, down_m_s = 0.25, yawspeed_deg_s = 22.5\<rparr>,
       Sleep_for 4000,
       Set_velocity_body
         \<lparr>forward_m_s = 0, right_m_s = 0.5, down_m_s = - 0.25, yawspeed_deg_s = 22.5\<rparr>,
       Sleep_for 4000,
       Set_velocity_body
         \<lparr>forward_m_s = 0, right_m_s = 0.5, down_m_s = 0.25, yawspeed_deg_s = 22.5\<rparr>,
       Sleep_for 4000,
       Set_velocity_body
         \<lparr>forward_m_s = 0, right_m_s = 0, down_m_s = 0, yawspeed_deg_s = 0\<rparr>, Sleep_for 2000,
       Offboard_stop]"
proof -
  let ?ch = "\<lparr>start_result = Offboard_Success, stop_result = Offboard_Success\<rparr>"
  have h1: "start_result ?ch = Offboard_Success" and h2: "stop_result ?ch = Offboard_Success"
    by simp_all
  from offb_ctrl_body_steps_in_order [OF h1 h2, of Omnidirectional] show ?thesis
    using h1 h2
    by (simp add: step_events_def seconds_def hover_def fly_forward_right_up_def
        fly_forward_left_down_def fly_backward_left_up_def fly_backward_right_down_def
        fly_quarter_cirle_up_def fly_quarter_cirle_down_def)
qed

text \<open>
  Claim C9, as stated, asks the orthogonal program to send a forward command and
  later a backward one. On a fully successful run it sends no command with
  negative forward velocity at all.
\<close>

theorem orthogonal_no_return_step:
  "\<not> forward_then_backward (sent_commands (snd (offb_ctrl_body Orthogonal
        \<lparr>start_result = Offboard_Success, stop_result = Offboard_Success\<rparr>)))"
  by (simp add: offb_ctrl_body_orthogonal_def Let_def hover_def fly_forward_def)

text \<open>
  Claim C9, amended. The omnidirectional program's step sequence flies a
  four-sided square with yaw turns, and the orthogonal program's step sequence
  flies straight out and not back: it holds a forward-velocity step and no
  backward step. In full, for a run whose start call succeeds: the
  omnidirectional program holds, between two hovers of 2 seconds, eight setpoints
  for 4 seconds each; the first four have speed 0.5 forward or backward and 0.5
  right or left with no yaw rate, and their displacements are the sides of a
  square; the last four move right at 0.5 while turning at 22.5 degrees a
  second, 90 degrees each. The orthogonal program holds, between the two hovers,
  one setpoint, forward at 0.5 for 4 seconds. On no run does the orthogonal
  program send a command with negative forward velocity.
\<close>

theorem flight_scripts:
  assumes "start_result ch = Offboard_Success"
  shows "setpoints (snd (offb_ctrl_body Omnidirectional ch)) =
      [(\<lparr>forward_m_s = 0, right_m_s = 0, down_m_s = 0, yawspeed_deg_s = 0\<rparr>, 2000),
       (\<lparr>forward_m_s = 0.5, right_m_s = 0.5, down_m_s = - 0.25, yawspeed_deg_s = 0\<rparr>, 4000),
       (\<lparr>forward_m_s = 0.5, right_m_s = - 0.5, down_m_s = 0.25, yawspeed_deg_s = 0\<rparr>, 4000),
       (\<lparr>forward_m_s = - 0.5, right_m_s = - 0.5, down_m_s = - 0.25, yawspeed_deg_s = 0\<rparr>, 4000),
       (\<lparr>forward_m_s = - 0.5, right_m_s = 0.5, down_m_s = 0.25, yawspeed_deg_s = 0\<rparr>, 4000),
       (\<lparr>forward_m_s = 0, right_m_s = 0.5, down_m_s = - 0.25, yawspeed_deg_s = 22.5\<rparr>, 4000),
       (\<lparr>forward_m_s = 0, right_m_s = 0.5, down_m_s = 0.25, yawspeed_deg_s = 22.5\<rparr>, 4000),
       (\<lparr>forward_m_s = 0, right_m_s = 0.5, down_m_s = - 0.25, yawspeed_deg_s = 22.5\<rparr>, 4000),
       (\<lparr>forward_m_s = 0, right_m_s = 0.5, down_m_s = 0.25, yawspeed_deg_s = 22.5\<rparr>, 4000),
       (\<lparr>forward_m_s = 0, right_m_s = 0, down_m_s = 0, yawspeed_deg_s = 0\<rparr>, 2000)]
   \<and> map displacement (take 4 (drop 1 (setpoints (snd (offb_ctrl_body Omnidirectional ch))))) =
      [(2, 2, - 1), (2, - 2, 1), (- 2, - 2, - 1), (- 2, 2, 1)]
   \<and> square_legs
        (map displacement (take 4 (drop 1 (setpoints (snd (offb_ctrl_body Omnidirectional ch))))))
   \<and> map yaw_turn (take 4 (drop 1 (setpoints (snd (offb_ctrl_body Omnidirectional ch))))) =
      [0, 0, 0, 0]
   \<and> map yaw_turn (take 4 (drop 5 (setpoints (snd (offb_ctrl_body Omnidirectional ch))))) =
      [90, 90, 90, 90]
   \<and> setpoints (snd (offb_ctrl_body Orthogonal ch)) =
      [(\<lparr>forward_m_s = 0, right_m_s = 0, down_m_s = 0, yawspeed_deg_s = 0\<rparr>, 2000),
       (\<lparr>forward_m_s = 0.5, right_m_s = 0, down_m_s = 0, yawspeed_deg_s = 0\<rparr>, 4000),
       (\<lparr>forward_m_s = 0, right_m_s = 0, down_m_s = 0, yawspeed_deg_s = 0\<rparr>, 2000)]
   \<and> (\<forall>ch'. \<not> forward_then_backward (sent_commands (snd (offb_ctrl_body Orthogonal ch')))
          \<and> \<not> list_ex (\<lambda>c. forward_m_s c < 0)
                (sent_commands (snd (offb_ctrl_body Orthogonal ch'))))"
proof -
  have omni: "setpoints (snd (offb_ctrl_body Omnidirectional ch)) =
      [(\<lparr>forward_m_s = 0, right_m_s = 0, down_m_s = 0, yawspeed_deg_s = 0\<rparr>, 2000),
       (\<lparr>forward_m_s = 0.5, right_m_s = 0.5, down_m_s = - 0.25, yawspeed_deg_s = 0\<rparr>, 4000),
       (\<lparr>forward_m_s = 0.5, right_m_s = - 0.5, down_m_s = 0.25, yawspeed_deg_s = 0\<rparr>, 4000),
       (\<lparr>forward_m_s = - 0.5, right_m_s = - 0.5, down_m_s = - 0.25, yawspeed_deg_s = 0\<rparr>, 4000),
       (\<lparr>forward_m_s = - 0.5, right_m_s = 0.5, down_m_s = 0.25, yawspeed_deg_s = 0\<rparr>, 4000),
       (\<lparr>forward_m_s = 0, right_m_s = 0.5, down_m_s = - 0.25, yawspeed_deg_s = 22.5\<rparr>, 4000),
       (\<lparr>forward_m_s = 0, right_m_s = 0.5, down_m_s = 0.25, yawspeed_deg_s = 22.5\<rparr>, 4000),
       (\<lparr>forward_m_s = 0, right_m_s = 0.5, down_m_s = - 0.25, yawspeed_deg_s = 22.5\<rparr>, 4000),
       (\<lparr>forward_m_s = 0, right_m_s = 0.5, down_m_s = 0.25, yawspeed_deg_s = 22.5\<rparr>, 4000),
       (\<lparr>forward_m_s = 0, right_m_s = 0, down_m_s = 0, yawspeed_deg_s = 0\<rparr>, 2000)]"
    using assms
    by (cases "stop_result ch = Offboard_Success")
       (simp_all add: offb_ctrl_body_omnidirectional_def Let_def hover_def seconds_def
         fly_forward_right_up_def fly_forward_left_down_def fly_backward_left_up_def
         fly_backward_right_down_def fly_quarter_cirle_up_def fly_quarter_cirle_down_def)
  have orth: "setpoints (snd (offb_ctrl_body Orthogonal ch)) =
      [(\<lparr>forward_m_s = 0, right_m_s = 0, down_m_s = 0, yawspeed_deg_s = 0\<rparr>, 2000),
       (\<lparr>forward_m_s = 0.5, right_m_s = 0, down_m_s = 0, yawspeed_deg_s = 0\<rparr>, 4000),
       (\<lparr>forward_m_s = 0, right_m_s = 0, down_m_s = 0, yawspeed_deg_s = 0\<rparr>, 2000)]"
    using assms
    by (cases "stop_result ch = Offboard_Success")
       (simp_all add: offb_ctrl_body_orthogonal_def Let_def hover_def seconds_def fly_forward_def)
  have fwd: "\<not> forward_then_backward (sent_commands (snd (offb_ctrl_body Orthogonal ch')))
          \<and> \<not> list_ex (\<lambda>c. forward_m_s c < 0)
                (sent_commands (snd (offb_ctrl_body Orthogonal ch')))" for ch'
    by (cases "start_result ch' = Offboard_Success"; cases "stop_result ch' = Offboard_Success")
       (simp_all add: offb_ctrl_body_orthogonal_def Let_def hover_def fly_forward_def)
  have rest: "map displacement (take 4 (drop 1 (setpoints (snd (offb_ctrl_body Omnidirectional ch))))) =
      [(2, 2, - 1), (2, - 2, 1), (- 2, - 2, - 1), (- 2, 2, 1)]
   \<and> map yaw_turn (take 4 (drop 1 (setpoints (snd (offb_ctrl_body Omnidirectional ch))))) =
      [0, 0, 0, 0]
   \<and> map yaw_turn (take 4 (drop 5 (setpoints (snd (offb_ctrl_body Omnidirectional ch))))) =
      [90, 90, 90, 90]"
    unfolding omni by (simp add: displacement_def yaw_turn_def)
  then have sq: "square_legs
        (map displacement (take 4 (drop 1 (setpoints (snd (offb_ctrl_body Omnidirectional ch))))))"
    by simp
  from omni orth fwd rest sq show ?thesis by blast
qed

theorem flight_scripts_witness:
  "start_result \<lparr>start_result = Offboard_Success, stop_result = Offboard_Other 2\<rparr> = Offboard_Success
   \<and> length (setpoints (snd (offb_ctrl_body Omnidirectional
        \<lparr>start_result = Offboard_Success, stop_result = Offboard_Other 2\<rparr>))) = 10
   \<and> map snd (setpoints (snd (offb_ctrl_body Orthogonal
        \<lparr>start_result = Offboard_Success, stop_result = Offboard_Other 2\<rparr>))) = [2000, 4000, 2000]
   \<and> map (forward_m_s \<circ> fst) (setpoints (snd (offb_ctrl_body Orthogonal
        \<lparr>start_result = Offboard_Success, stop_result = Offboard_Other 2\<rparr>))) = [0, 0.5, 0]"
proof -
  let ?ch = "\<lparr>start_result = Offboard_Success, stop_result = Offboard_Other 2\<rparr>"
  have h: "start_result ?ch = Offboard_Success" by simp
  note t = flight_scripts [OF h]
  from t have a: "length (setpoints (snd (offb_ctrl_body Omnidirectional ?ch))) = 10"
    by simp
  from t have b: "setpoints (snd (offb_ctrl_body Orthogonal ?ch)) =
      [(\<lparr>forward_m_s = 0, right_m_s = 0, down_m_s = 0, yawspeed_deg_s = 0\<rparr>, 2000),
       (\<lparr>forward_m_s = 0.5, right_m_s = 0, down_m_s = 0, yawspeed_deg_s = 0\<rparr>, 4000),
       (\<lparr>forward_m_s = 0, right_m_s = 0, down_m_s = 0, yawspeed_deg_s = 0\<rparr>, 2000)]"
    by blast
  show ?thesis using h a unfolding b by simp
qed

section \<open>Properties of the handshakes\<close>

lemma wait_for_fulfilled: "promise s \<noteq> None \<Longrightarrow> wait_for f d ds s = (Ready, ds, s)"
  by (cases ds) auto

lemma wait_for_status:
  "(fst (wait_for f d ds s) = Ready) = (promise (snd (snd (wait_for f d ds s))) \<noteq> None)"
  by (induction f d ds s rule: wait_for.induct) auto

lemma wait_for_invariant:
  assumes step: "\<And>x s. I s \<Longrightarrow> I (notify f x s)"
    and clk: "\<And>s c. I s \<Longrightarrow> I (s\<lparr>clock := c\<rparr>)"
    and init: "I s"
  shows "I (snd (snd (wait_for f d ds s)))"
  using init by (induction ds arbitrary: d s) (auto simp: step clk)

lemma in_air_ok_notify: "in_air_handshake_ok s \<Longrightarrow> in_air_handshake_ok (notify on_landed_state x s)"
  by (auto simp add: notify_def on_landed_state_def set_value_def subscribe_landed_state_def emit_def
      in_air_handshake_ok_def handshake_events_def split: if_splits)

lemma in_air_ok_clock: "in_air_handshake_ok s \<Longrightarrow> in_air_handshake_ok (s\<lparr>clock := c\<rparr>)"
  by (auto simp add: in_air_handshake_ok_def split: if_splits)

lemma in_air_ok_wait: "in_air_handshake_ok s \<Longrightarrow> in_air_handshake_ok (emit (Wait_for d) s)"
  by (auto simp add: in_air_handshake_ok_def emit_def handshake_events_def split: if_splits)

lemma discovery_ok_notify:
  "discovery_handshake_ok s \<Longrightarrow> discovery_handshake_ok (notify on_new_system x s)"
  by (auto simp add: notify_def on_new_system_def set_value_def subscribe_on_new_system_def emit_def
      discovery_handshake_ok_def handshake_events_def split: option.splits)

lemma discovery_ok_clock: "discovery_handshake_ok s \<Longrightarrow> discovery_handshake_ok (s\<lparr>clock := c\<rparr>)"
  by (auto simp add: discovery_handshake_ok_def split: option.splits)

lemma discovery_ok_emit:
  "discovery_handshake_ok s \<Longrightarrow> discovery_handshake_ok (emit (Wait_for d) s)"
  "discovery_handshake_ok s \<Longrightarrow> discovery_handshake_ok (emit (Cerr t) s)"
  by (auto simp add: discovery_handshake_ok_def emit_def handshake_events_def split: option.splits)

lemma in_air_future_wait_ok:
  "in_air_handshake_ok (snd (snd (in_air_future_wait ds)))"
proof -
  let ?s0 = "subscribe_landed_state Handler
                \<lparr>subscribed = False, promise = None, events = [], clock = 0\<rparr> :: unit handshake"
  have 0: "in_air_handshake_ok (emit (Wait_for (seconds 10)) ?s0)"
    by (simp add: in_air_handshake_ok_def subscribe_landed_state_def emit_def handshake_events_def)
  obtain st1 ds1 s1 where w1:
    "wait_for on_landed_state (seconds 10) ds (emit (Wait_for (seconds 10)) ?s0) = (st1, ds1, s1)"
    by (metis prod_cases3)
  have 1: "in_air_handshake_ok s1"
    using wait_for_invariant [of in_air_handshake_ok on_landed_state, OF in_air_ok_notify in_air_ok_clock 0,
        of "seconds 10" ds] w1 by simp
  have 2: "in_air_handshake_ok (snd (snd (wait_for on_landed_state (seconds 3) ds1 (emit (Wait_for (seconds 3)) s1))))"
    by (rule wait_for_invariant [OF in_air_ok_notify in_air_ok_clock in_air_ok_wait [OF 1]])
  show ?thesis using 2 w1 by (simp add: in_air_future_wait_def Let_def split: prod.splits)
qed

lemma in_air_future_wait_status:
  "(fst (in_air_future_wait ds) = Ready) = (promise (snd (snd (in_air_future_wait ds))) \<noteq> None)"
proof -
  obtain st1 ds1 s1 where w1:
    "wait_for on_landed_state (seconds 10) ds (emit (Wait_for (seconds 10))
       (subscribe_landed_state Handler \<lparr>subscribed = False, promise = None, events = [], clock = 0\<rparr>))
       = (st1, ds1, s1)"
    by (metis prod_cases3)
  show ?thesis
    using wait_for_status [of on_landed_state "seconds 3" ds1 "emit (Wait_for (seconds 3)) s1"] w1
    by (simp add: in_air_future_wait_def Let_def split: prod.splits)
qed

lemma get_system_ok: "discovery_handshake_ok (snd (snd (get_system ds)))"
proof -
  let ?s1 = "emit (Wait_for (seconds 3)) (subscribe_on_new_system Handler
       \<lparr>subscribed = False, promise = None,
        events = [Cout [Str ''Waiting to discover system...\<newline>'']], clock = 0\<rparr>) :: System handshake"
  have 0: "discovery_handshake_ok ?s1"
    by (simp add: discovery_handshake_ok_def subscribe_on_new_system_def emit_def handshake_events_def)
  have 1: "discovery_handshake_ok (snd (snd (wait_for on_new_system (seconds 3) ds ?s1)))"
    by (rule wait_for_invariant [OF discovery_ok_notify discovery_ok_clock 0])
  show ?thesis using 1
    by (auto simp add: get_system_def Let_def discovery_ok_emit split: prod.splits)
qed

lemma get_system_result:
  "fst (get_system ds) = promise (snd (snd (get_system ds)))"
proof -
  let ?s1 = "emit (Wait_for (seconds 3)) (subscribe_on_new_system Handler
       \<lparr>subscribed = False, promise = None,
        events = [Cout [Str ''Waiting to discover system...\<newline>'']], clock = 0\<rparr>) :: System handshake"
  show ?thesis
    using wait_for_status [of on_new_system "seconds 3" ds ?s1]
    by (auto simp add: get_system_def Let_def emit_def split: prod.splits future_status.splits)
qed


lemma deliver_unsubscribed:
  "\<not> subscribed s \<Longrightarrow> deliver f ds s = s\<lparr>clock := clock s + sum_list (map fst ds)\<rparr>"
  by (induction ds arbitrary: s) (auto simp: notify_def add.assoc)

lemma handshake_events_single:
  "handshake_events tr = [e] \<Longrightarrow> \<not> is_unsubscribe e \<Longrightarrow> \<not> list_ex is_unsubscribe tr"
proof
  assume h: "handshake_events tr = [e]" and n: "\<not> is_unsubscribe e" and "list_ex is_unsubscribe tr"
  then obtain x where "x \<in> set tr" "is_unsubscribe x" by (auto simp: list_ex_iff)
  then have "x \<in> set (handshake_events tr)" by (simp add: handshake_events_def)
  with h n \<open>is_unsubscribe x\<close> show False by simp
qed

lemmas handshake_defs = in_air_future_wait_def get_system_def Let_def notify_def on_landed_state_def
  on_new_system_def set_value_def subscribe_landed_state_def subscribe_on_new_system_def emit_def
  seconds_def

lemma nominal_in_air:
  "in_air_future_wait (landed_states nominal) =
     (Ready, [(100, InAir)],
      \<lparr>subscribed = False, promise = Some (),
       events = [Subscribe_landed_state Handler, Wait_for 10000, Wait_for 3000,
                 Cout [Str ''Taking off has finished\<newline>.''], Subscribe_landed_state Nullptr,
                 In_air_promise_set_value],
       clock = 11100\<rparr>)"
  by (simp add: nominal_def handshake_defs)

lemma nominal_get_system:
  "get_system (new_systems nominal) =
     (Some \<lparr>has_autopilot = True\<rparr>, [],
      \<lparr>subscribed = False, promise = Some \<lparr>has_autopilot = True\<rparr>,
       events = [Cout [Str ''Waiting to discover system...\<newline>''],
                 Subscribe_on_new_system Handler, Wait_for 3000,
                 Cout [Str ''Discovered autopilot\<newline>''], Subscribe_on_new_system Nullptr,
                 Prom_set_value \<lparr>has_autopilot = True\<rparr>],
       clock = 1200\<rparr>)"
  by (simp add: nominal_def handshake_defs)

lemma silent_in_air:
  "in_air_future_wait [(100, OnGround), (14000, InAir)] =
     (Timeout, [(1100, InAir)],
      \<lparr>subscribed = True, promise = None,
       events = [Subscribe_landed_state Handler, Wait_for 10000, Wait_for 3000],
       clock = 13000\<rparr>)"
  by (simp add: handshake_defs)

lemma silent_get_system:
  "get_system [(500, \<lparr>has_autopilot = False\<rparr>)] =
     (None, [],
      \<lparr>subscribed = True, promise = None,
       events = [Cout [Str ''Waiting to discover system...\<newline>''],
                 Subscribe_on_new_system Handler, Wait_for 3000,
                 Cerr [Str ''No autopilot found.\<newline>'']],
       clock = 3000\<rparr>)"
  by (simp add: handshake_defs)

text \<open>
  Claim C4. For every sequence of notifications, the takeoff check and
  \<^verbatim>\<open>get_system\<close> each subscribe exactly once. The wait reports \<^verbatim>\<open>ready\<close> exactly when
  the promise holds a value, and then the handshake events are: the subscription,
  the removal of the subscription, the fulfilment of the promise, once each and
  in this order, with no \<^verbatim>\<open>future_error\<close>. After that, whatever notifications the
  library still delivers add no event: the promise is not fulfilled again.
  When the wait times out, the subscription is the only handshake event.
\<close>

theorem handshake_resolves_once:
  "(case in_air_future_wait ds of (status, rest, s) \<Rightarrow>
      (status = Ready) = (promise s = Some ())
    \<and> handshake_events (events s) =
        (if status = Ready
         then [Subscribe_landed_state Handler, Subscribe_landed_state Nullptr,
               In_air_promise_set_value]
         else [Subscribe_landed_state Handler])
    \<and> (status = Ready \<longrightarrow> (\<forall>late. events (deliver on_landed_state late s) = events s)))
 \<and> (case get_system ds' of (found, rest, s) \<Rightarrow>
      found = promise s
    \<and> handshake_events (events s) =
        (case found of
           Some system \<Rightarrow> [Subscribe_on_new_system Handler, Subscribe_on_new_system Nullptr,
                           Prom_set_value system]
         | None \<Rightarrow> [Subscribe_on_new_system Handler])
    \<and> (found \<noteq> None \<longrightarrow> (\<forall>late. events (deliver on_new_system late s) = events s)))"
proof -
  obtain status rest s where a: "in_air_future_wait ds = (status, rest, s)"
    by (metis prod_cases3)
  obtain found rest' s' where g: "get_system ds' = (found, rest', s')"
    by (metis prod_cases3)
  have ok: "in_air_handshake_ok s" using in_air_future_wait_ok [of ds] a by simp
  have st: "(status = Ready) = (promise s \<noteq> None)" using in_air_future_wait_status [of ds] a by simp
  have ok': "discovery_handshake_ok s'" using get_system_ok [of ds'] g by simp
  have st': "found = promise s'" using get_system_result [of ds'] g by simp
  have 1: "(status = Ready) = (promise s = Some ())" using st by auto
  have 2: "handshake_events (events s) =
        (if status = Ready
         then [Subscribe_landed_state Handler, Subscribe_landed_state Nullptr,
               In_air_promise_set_value]
         else [Subscribe_landed_state Handler])"
    using ok st by (auto simp: in_air_handshake_ok_def split: if_splits)
  have 3: "events (deliver on_landed_state late s) = events s" if "status = Ready" for late
    using ok st that by (simp add: in_air_handshake_ok_def deliver_unsubscribed split: if_splits)
  have 4: "handshake_events (events s') =
        (case found of
           Some system \<Rightarrow> [Subscribe_on_new_system Handler, Subscribe_on_new_system Nullptr,
                           Prom_set_value system]
         | None \<Rightarrow> [Subscribe_on_new_system Handler])"
    using ok' st' by (auto simp: discovery_handshake_ok_def split: option.splits)
  have 5: "events (deliver on_new_system late s') = events s'" if "found \<noteq> None" for late
    using ok' st' that
    by (auto simp add: discovery_handshake_ok_def deliver_unsubscribed split: option.splits)
  show ?thesis using 1 2 3 4 5 st' by (simp add: a g)
qed

theorem handshake_resolves_once_witness:
  "fst (in_air_future_wait (landed_states nominal)) = Ready
   \<and> handshake_events (events (deliver on_landed_state [(100, InAir)]
        (snd (snd (in_air_future_wait (landed_states nominal)))))) =
      [Subscribe_landed_state Handler, Subscribe_landed_state Nullptr, In_air_promise_set_value]
   \<and> fst (get_system (new_systems nominal)) \<noteq> None
   \<and> handshake_events (events (deliver on_new_system [(10, \<lparr>has_autopilot = True\<rparr>)]
        (snd (snd (get_system (new_systems nominal)))))) =
      [Subscribe_on_new_system Handler, Subscribe_on_new_system Nullptr,
       Prom_set_value \<lparr>has_autopilot = True\<rparr>]"
proof -
  note t = handshake_resolves_once [of "landed_states nominal" "new_systems nominal"]
  have r: "fst (in_air_future_wait (landed_states nominal)) = Ready"
    by (simp add: nominal_in_air)
  have f: "fst (get_system (new_systems nominal)) \<noteq> None"
    by (simp add: nominal_get_system)
  from t r have "\<forall>late. events (deliver on_landed_state late
        (snd (snd (in_air_future_wait (landed_states nominal))))) =
      events (snd (snd (in_air_future_wait (landed_states nominal))))"
    by (auto split: prod.splits)
  then have a: "events (deliver on_landed_state [(100, InAir)]
        (snd (snd (in_air_future_wait (landed_states nominal))))) =
      events (snd (snd (in_air_future_wait (landed_states nominal))))"
    by (rule spec)
  from t f have "\<forall>late. events (deliver on_new_system late
        (snd (snd (get_system (new_systems nominal))))) =
      events (snd (snd (get_system (new_systems nominal))))"
    by (auto split: prod.splits)
  then have b: "events (deliver on_new_system [(10, \<lparr>has_autopilot = True\<rparr>)]
        (snd (snd (get_system (new_systems nominal))))) =
      events (snd (snd (get_system (new_systems nominal))))"
    by (rule spec)
  show ?thesis
    unfolding a b by (simp add: nominal_in_air nominal_get_system handshake_events_def)
qed

lemma notify_other: "x \<noteq> InAir \<Longrightarrow> notify on_landed_state x s = s"
  by (simp add: notify_def on_landed_state_def)

lemma notify_in_air:
  "promise s = None \<Longrightarrow> subscribed s \<Longrightarrow> promise (notify on_landed_state InAir s) \<noteq> None"
  by (simp add: notify_def on_landed_state_def set_value_def subscribe_landed_state_def emit_def)

lemma wait_for_in_air_ready:
  "promise s = None \<Longrightarrow> subscribed s \<Longrightarrow> sum_list (map fst pre) + dt < d \<Longrightarrow>
   fst (wait_for on_landed_state d (pre @ (dt, InAir) # post) s) = Ready"
proof (induction pre arbitrary: d s)
  case Nil
  then show ?case by (simp add: wait_for_fulfilled notify_in_air)
next
  case (Cons a pre)
  obtain dt0 x where a: "a = (dt0, x)" by (cases a)
  show ?case
  proof (cases "x = InAir")
    case True
    with Cons.prems a show ?thesis by (simp add: wait_for_fulfilled notify_in_air)
  next
    case False
    with Cons.prems a Cons.IH [of "s\<lparr>clock := clock s + dt0\<rparr>" "d - dt0"] show ?thesis
      by (simp add: notify_other)
  qed
qed

lemma wait_for_in_air_timeout:
  "promise s = None \<Longrightarrow> subscribed s \<Longrightarrow>
   wait_for on_landed_state d (pre @ (dt, InAir) # post) s = (Timeout, ds', s') \<Longrightarrow>
   \<exists>pre' dt'. ds' = pre' @ (dt', InAir) # post
      \<and> sum_list (map fst pre') + dt' + d = sum_list (map fst pre) + dt
      \<and> promise s' = None \<and> subscribed s'"
proof (induction pre arbitrary: d s)
  case Nil
  show ?case
  proof (cases "dt < d")
    case True
    with Nil show ?thesis by (simp add: wait_for_fulfilled notify_in_air)
  next
    case False
    with Nil have "ds' = [] @ (dt - d, InAir) # post" "promise s' = None" "subscribed s'"
      by auto
    with False show ?thesis by (metis add.left_neutral le_add_diff_inverse2 list.simps(8) not_less sum_list.Nil)
  qed
next
  case (Cons a pre)
  obtain dt0 x where a: "a = (dt0, x)" by (cases a)
  show ?case
  proof (cases "dt0 < d")
    case True
    show ?thesis
    proof (cases "x = InAir")
      case True
      with \<open>dt0 < d\<close> Cons.prems a show ?thesis by (simp add: wait_for_fulfilled notify_in_air)
    next
      case False
      with \<open>dt0 < d\<close> Cons.prems a
      have "wait_for on_landed_state (d - dt0) (pre @ (dt, InAir) # post)
              (s\<lparr>clock := clock s + dt0\<rparr>) = (Timeout, ds', s')"
        by (simp add: notify_other)
      from Cons.IH [OF _ _ this] Cons.prems(1,2)
      obtain pre' dt' where "ds' = pre' @ (dt', InAir) # post"
        "sum_list (map fst pre') + dt' + (d - dt0) = sum_list (map fst pre) + dt"
        "promise s' = None" "subscribed s'" by auto
      with \<open>dt0 < d\<close> a show ?thesis by (intro exI [of _ pre'] exI [of _ dt']) auto
    qed
  next
    case False
    with Cons.prems a have "ds' = ((dt0 - d, x) # pre) @ (dt, InAir) # post"
      "promise s' = None" "subscribed s'" by auto
    with False a show ?thesis
      by (intro exI [of _ "(dt0 - d, x) # pre"] exI [of _ dt]) auto
  qed
qed

lemma wait_for_none:
  "promise s = None \<Longrightarrow> InAir \<notin> snd ` set ds \<Longrightarrow>
   \<exists>ds'. wait_for on_landed_state d ds s = (Timeout, ds', s\<lparr>clock := clock s + d\<rparr>)
       \<and> InAir \<notin> snd ` set ds'"
proof (induction ds arbitrary: d s)
  case Nil
  then show ?case by simp
next
  case (Cons a ds)
  obtain dt0 x where a: "a = (dt0, x)" by (cases a)
  with Cons.prems have x: "x \<noteq> InAir" and rest: "InAir \<notin> snd ` set ds" by auto
  show ?case
  proof (cases "dt0 < d")
    case True
    with Cons.IH [of "s\<lparr>clock := clock s + dt0\<rparr>" "d - dt0"] Cons.prems(1) rest x a
    show ?thesis by (auto simp: notify_other)
  next
    case False
    with Cons.prems(1) rest x a show ?thesis by auto
  qed
qed

lemma wait_for_first_in_air:
  "promise s = None \<Longrightarrow> subscribed s \<Longrightarrow> wait_for on_landed_state d ds s = (st, ds', s') \<Longrightarrow>
     (case first_in_air ds of
        Some t \<Rightarrow>
          if t < d then st = Ready \<and> clock s' = clock s + t \<and> promise s' \<noteq> None
          else st = Timeout \<and> clock s' = clock s + d \<and> first_in_air ds' = Some (t - d)
               \<and> promise s' = None \<and> subscribed s'
      | None \<Rightarrow> st = Timeout \<and> clock s' = clock s + d \<and> first_in_air ds' = None
               \<and> promise s' = None \<and> subscribed s')"
proof (induction ds arbitrary: d s)
  case Nil
  then show ?case by auto
next
  case (Cons a ds)
  obtain dt x where a: "a = (dt, x)" by (cases a)
  show ?case
  proof (cases "dt < d")
    case False
    with Cons.prems a show ?thesis by (auto split: option.splits)
  next
    case True
    show ?thesis
    proof (cases "x = InAir")
      case ia: True
      have "promise (notify on_landed_state InAir (s\<lparr>clock := clock s + dt\<rparr>)) \<noteq> None"
        using Cons.prems by (simp add: notify_in_air)
      moreover have "clock (notify on_landed_state InAir (s\<lparr>clock := clock s + dt\<rparr>)) = clock s + dt"
        using Cons.prems
        by (simp add: notify_def on_landed_state_def set_value_def subscribe_landed_state_def emit_def)
      ultimately show ?thesis using True ia a Cons.prems
        by (auto simp add: wait_for_fulfilled)
    next
      case other: False
      let ?s = "s\<lparr>clock := clock s + dt\<rparr>"
      have s: "promise ?s = None" "subscribed ?s" "clock ?s = clock s + dt"
        using Cons.prems by simp_all
      from Cons.prems True other a
      have w: "wait_for on_landed_state (d - dt) ds ?s = (st, ds', s')"
        by (simp add: notify_other)
      note ih = Cons.IH [OF s(1,2) w, unfolded s(3)]
      show ?thesis
      proof (cases "first_in_air ds")
        case None
        with ih True other a show ?thesis by simp
      next
        case (Some t)
        with ih True other a show ?thesis by (auto split: if_splits)
      qed
    qed
  qed
qed

lemma in_air_future_wait_single:
  "fst (in_air_future_wait ds) =
     fst (wait_for on_landed_state (seconds 13) ds
       (subscribe_landed_state Handler \<lparr>subscribed = False, promise = None, events = [], clock = 0\<rparr>))
   \<and> clock (snd (snd (in_air_future_wait ds))) =
     clock (snd (snd (wait_for on_landed_state (seconds 13) ds
       (subscribe_landed_state Handler \<lparr>subscribed = False, promise = None, events = [], clock = 0\<rparr>))))"
proof -
  let ?i = "subscribe_landed_state Handler
      \<lparr>subscribed = False, promise = None, events = [], clock = 0\<rparr> :: unit handshake"
  let ?s0 = "emit (Wait_for (seconds 10)) ?i"
  have i: "promise ?i = None" "subscribed ?i" "clock ?i = 0"
    by (simp_all add: subscribe_landed_state_def emit_def)
  have s0: "promise ?s0 = None" "subscribed ?s0" "clock ?s0 = 0"
    by (simp_all add: subscribe_landed_state_def emit_def)
  obtain st ds' s' where single: "wait_for on_landed_state (seconds 13) ds ?i = (st, ds', s')"
    by (metis prod_cases3)
  obtain st1 ds1 s1 where w1: "wait_for on_landed_state (seconds 10) ds ?s0 = (st1, ds1, s1)"
    by (metis prod_cases3)
  obtain st2 ds2 s2 where w2:
    "wait_for on_landed_state (seconds 3) ds1 (emit (Wait_for (seconds 3)) s1) = (st2, ds2, s2)"
    by (metis prod_cases3)
  note a = wait_for_first_in_air [OF i(1,2) single, unfolded i(3)]
  note b = wait_for_first_in_air [OF s0(1,2) w1, unfolded s0(3)]
  have "st2 = st \<and> clock s2 = clock s'"
  proof (cases "promise s1 = None")
    case False
    then have "wait_for on_landed_state (seconds 3) ds1 (emit (Wait_for (seconds 3)) s1)
        = (Ready, ds1, emit (Wait_for (seconds 3)) s1)"
      by (simp add: wait_for_fulfilled emit_def)
    with w2 have "st2 = Ready" "clock s2 = clock s1" by (simp_all add: emit_def)
    with a b False show ?thesis
      by (auto simp: seconds_def split: option.splits if_splits)
  next
    case True
    with b have sub: "subscribed s1"
      by (auto split: option.splits if_splits)
    have e: "promise (emit (Wait_for (seconds 3)) s1) = None"
      "subscribed (emit (Wait_for (seconds 3)) s1)"
      "clock (emit (Wait_for (seconds 3)) s1) = clock s1"
      using True sub by (simp_all add: emit_def)
    note c = wait_for_first_in_air [OF e(1,2) w2, unfolded e(3)]
    from a b c True show ?thesis
      by (auto simp: seconds_def split: option.splits if_splits)
  qed
  with single w1 w2 show ?thesis
    by (simp add: in_air_future_wait_def Let_def)
qed

text \<open>
  Claim C5. The takeoff check waits 10 seconds and then 3 more. If a landed-state
  notification \<^verbatim>\<open>InAir\<close> arrives less than 13 seconds after the subscription, the
  second wait reports \<^verbatim>\<open>ready\<close> and \<^verbatim>\<open>main\<close> goes on to the velocity control. If no
  such notification ever arrives, the second wait reports \<^verbatim>\<open>timeout\<close> after exactly
  10 + 3 seconds, and \<^verbatim>\<open>main\<close> reports the timeout on standard error and returns 1.
  For every sequence of notifications the two waits together have the outcome
  and take the time of one wait of 13 seconds: that is the timeout of the check.
\<close>

theorem takeoff_confirmation_outcome:
  "(landed_states w = pre @ (dt, InAir) # post
      \<and> sum_list (map fst pre) + dt < seconds 10 + seconds 3 \<longrightarrow>
      fst (in_air_future_wait (landed_states w)) = Ready
    \<and> main_in_air v fuel w =
        preceded_by (events (snd (snd (in_air_future_wait (landed_states w)))))
          (main_offboard v fuel w))
 \<and> (InAir \<notin> snd ` set (landed_states w) \<longrightarrow>
      fst (in_air_future_wait (landed_states w)) = Timeout
    \<and> clock (snd (snd (in_air_future_wait (landed_states w)))) = seconds 10 + seconds 3
    \<and> main_in_air v fuel w =
        Exit 1 [Subscribe_landed_state Handler, Wait_for (seconds 10), Wait_for (seconds 3),
                Cerr [Str ''Takeoff timed out.\<newline>'']])
 \<and> fst (in_air_future_wait (landed_states w)) =
     fst (wait_for on_landed_state (seconds 13) (landed_states w)
       (subscribe_landed_state Handler
          \<lparr>subscribed = False, promise = None, events = [], clock = 0\<rparr>))
 \<and> clock (snd (snd (in_air_future_wait (landed_states w)))) =
     clock (snd (snd (wait_for on_landed_state (seconds 13) (landed_states w)
       (subscribe_landed_state Handler
          \<lparr>subscribed = False, promise = None, events = [], clock = 0\<rparr>))))"
proof -
  let ?s0 = "emit (Wait_for (seconds 10)) (subscribe_landed_state Handler
                \<lparr>subscribed = False, promise = None, events = [], clock = 0\<rparr>) :: unit handshake"
  have s0: "promise ?s0 = None" "subscribed ?s0"
    by (simp_all add: emit_def subscribe_landed_state_def)
  have ready: "fst (in_air_future_wait (landed_states w)) = Ready"
    if ds: "landed_states w = pre @ (dt, InAir) # post"
      and t: "sum_list (map fst pre) + dt < seconds 10 + seconds 3"
  proof -
    obtain st1 ds1 s1 where w1:
      "wait_for on_landed_state (seconds 10) (pre @ (dt, InAir) # post) ?s0 = (st1, ds1, s1)"
      by (metis prod_cases3)
    have "fst (wait_for on_landed_state (seconds 3) ds1 (emit (Wait_for (seconds 3)) s1)) = Ready"
    proof (cases st1)
      case Ready
      with w1 wait_for_status [of on_landed_state "seconds 10" "pre @ (dt, InAir) # post" ?s0]
      have "promise s1 \<noteq> None" by simp
      then show ?thesis by (simp add: wait_for_fulfilled emit_def)
    next
      case Timeout
      with wait_for_in_air_timeout [OF s0 w1 [unfolded Timeout]]
      obtain pre' dt' where r: "ds1 = pre' @ (dt', InAir) # post"
        "sum_list (map fst pre') + dt' + seconds 10 = sum_list (map fst pre) + dt"
        "promise s1 = None" "subscribed s1" by auto
      with t have "sum_list (map fst pre') + dt' < seconds 3" by simp
      with r show ?thesis
        using wait_for_in_air_ready [of "emit (Wait_for (seconds 3)) s1" pre' dt' "seconds 3" post]
        by (simp add: emit_def)
    qed
    with w1 ds show ?thesis by (simp add: in_air_future_wait_def Let_def)
  qed
  have proceed: "main_in_air v fuel w =
        preceded_by (events (snd (snd (in_air_future_wait (landed_states w)))))
          (main_offboard v fuel w)"
    if "fst (in_air_future_wait (landed_states w)) = Ready"
    using that by (auto simp add: main_in_air_def split: prod.splits)
  have none: "in_air_future_wait (landed_states w) =
     (Timeout, fst (snd (in_air_future_wait (landed_states w))),
      \<lparr>subscribed = True, promise = None,
       events = [Subscribe_landed_state Handler, Wait_for (seconds 10), Wait_for (seconds 3)],
       clock = seconds 10 + seconds 3\<rparr>)"
    if n: "InAir \<notin> snd ` set (landed_states w)"
  proof -
    from wait_for_none [OF s0(1) n, of "seconds 10"]
    obtain ds1 where w1: "wait_for on_landed_state (seconds 10) (landed_states w) ?s0
        = (Timeout, ds1, ?s0\<lparr>clock := clock ?s0 + seconds 10\<rparr>)" and n1: "InAir \<notin> snd ` set ds1"
      by auto
    let ?s1 = "emit (Wait_for (seconds 3)) (?s0\<lparr>clock := clock ?s0 + seconds 10\<rparr>)"
    have "promise ?s1 = None" by (simp add: emit_def subscribe_landed_state_def)
    from wait_for_none [OF this n1, of "seconds 3"]
    obtain ds2 where w2: "wait_for on_landed_state (seconds 3) ds1 ?s1
        = (Timeout, ds2, ?s1\<lparr>clock := clock ?s1 + seconds 3\<rparr>)"
      by auto
    show ?thesis using w1 w2
      by (simp add: in_air_future_wait_def Let_def emit_def subscribe_landed_state_def)
  qed
  have timeout: "fst (in_air_future_wait (landed_states w)) = Timeout
    \<and> clock (snd (snd (in_air_future_wait (landed_states w)))) = seconds 10 + seconds 3
    \<and> main_in_air v fuel w =
        Exit 1 [Subscribe_landed_state Handler, Wait_for (seconds 10), Wait_for (seconds 3),
                Cerr [Str ''Takeoff timed out.\<newline>'']]"
    if n: "InAir \<notin> snd ` set (landed_states w)"
  proof -
    obtain r where r: "in_air_future_wait (landed_states w) = (Timeout, r,
      \<lparr>subscribed = True, promise = None,
       events = [Subscribe_landed_state Handler, Wait_for (seconds 10), Wait_for (seconds 3)],
       clock = seconds 10 + seconds 3\<rparr>)"
      using none [OF n] by blast
    show ?thesis by (simp add: main_in_air_def r)
  qed
  from ready proceed timeout in_air_future_wait_single [of "landed_states w"]
  show ?thesis by blast
qed

theorem takeoff_confirmation_outcome_witness:
  "landed_states nominal = [(100, OnGround), (2000, TakingOff)] @ (9000, InAir) # [(100, InAir)]
   \<and> sum_list (map fst [(100, OnGround), (2000, TakingOff)]) + 9000 < seconds 10 + seconds 3
   \<and> fst (in_air_future_wait (landed_states nominal)) = Ready
   \<and> InAir \<notin> snd ` set (landed_states (nominal\<lparr>landed_states := [(100, OnGround)]\<rparr>))
   \<and> clock (snd (snd (in_air_future_wait
        (landed_states (nominal\<lparr>landed_states := [(100, OnGround)]\<rparr>))))) = 13000
   \<and> main_in_air Orthogonal 5 (nominal\<lparr>landed_states := [(100, OnGround)]\<rparr>) =
       Exit 1 [Subscribe_landed_state Handler, Wait_for 10000, Wait_for 3000,
               Cerr [Str ''Takeoff timed out.\<newline>'']]"
proof -
  let ?w = "nominal\<lparr>landed_states := [(100, OnGround)]\<rparr>"
  have h1: "landed_states nominal =
      [(100, OnGround), (2000, TakingOff)] @ (9000, InAir) # [(100, InAir)]"
    by (simp add: nominal_def)
  have h2: "sum_list (map fst [(100, OnGround), (2000::nat, TakingOff)]) + 9000
      < seconds 10 + seconds 3"
    by (simp add: seconds_def)
  have h3: "InAir \<notin> snd ` set (landed_states ?w)" by simp
  from takeoff_confirmation_outcome [of nominal "[(100, OnGround), (2000, TakingOff)]" 9000 "[(100, InAir)]" Orthogonal 5]
    h1 h2
  have a: "fst (in_air_future_wait (landed_states nominal)) = Ready" by blast
  from takeoff_confirmation_outcome [of ?w "[]" 0 "[]" Orthogonal 5] h3
  have b: "clock (snd (snd (in_air_future_wait (landed_states ?w)))) = seconds 10 + seconds 3"
    and c: "main_in_air Orthogonal 5 ?w =
        Exit 1 [Subscribe_landed_state Handler, Wait_for (seconds 10), Wait_for (seconds 3),
                Cerr [Str ''Takeoff timed out.\<newline>'']]"
    by blast+
  show ?thesis using h1 h2 h3 a b c by (simp add: seconds_def)
qed

text \<open>
  Claim C6. When the takeoff check or \<^verbatim>\<open>get_system\<close> times out, the callback is
  still registered and the run holds no removal of the subscription; a removal
  occurs only on a run that resolved. \<^verbatim>\<open>main\<close> returns 1 right after the timeout of
  the takeoff check, without removing the subscription.
\<close>

theorem timeout_keeps_subscription:
  "(case in_air_future_wait ds of (status, rest, s) \<Rightarrow>
      (status = Timeout \<longrightarrow> subscribed s \<and> \<not> list_ex is_unsubscribe (events s))
    \<and> (list_ex is_unsubscribe (events s) \<longrightarrow> status = Ready))
 \<and> (case get_system ds' of (found, rest, s) \<Rightarrow>
      (found = None \<longrightarrow> subscribed s \<and> \<not> list_ex is_unsubscribe (events s))
    \<and> (list_ex is_unsubscribe (events s) \<longrightarrow> found \<noteq> None))
 \<and> (fst (in_air_future_wait (landed_states w)) = Timeout \<longrightarrow>
      main_in_air v fuel w =
        Exit 1 (events (snd (snd (in_air_future_wait (landed_states w))))
                @ [Cerr [Str ''Takeoff timed out.\<newline>'']])
    \<and> \<not> list_ex is_unsubscribe (run_events (main_in_air v fuel w)))"
proof -
  have air: "subscribed s \<and> \<not> list_ex is_unsubscribe (events s)"
    if "in_air_future_wait xs = (status, rest, s)" "status \<noteq> Ready" for xs status rest s
  proof -
    have ok: "in_air_handshake_ok s" using in_air_future_wait_ok [of xs] that by simp
    have "promise s = None" using in_air_future_wait_status [of xs] that
      by (cases "promise s") auto
    with ok have "subscribed s" "handshake_events (events s) = [Subscribe_landed_state Handler]"
      by (simp_all add: in_air_handshake_ok_def)
    then show ?thesis using handshake_events_single by fastforce
  qed
  have disc: "subscribed s \<and> \<not> list_ex is_unsubscribe (events s)"
    if "get_system xs = (None, rest, s)" for xs rest s
  proof -
    have ok: "discovery_handshake_ok s" using get_system_ok [of xs] that by simp
    have "promise s = None" using get_system_result [of xs] that by simp
    with ok have "subscribed s" "handshake_events (events s) = [Subscribe_on_new_system Handler]"
      by (simp_all add: discovery_handshake_ok_def)
    then show ?thesis using handshake_events_single by fastforce
  qed
  obtain status rest s where a: "in_air_future_wait ds = (status, rest, s)"
    by (metis prod_cases3)
  obtain found rest' s' where g: "get_system ds' = (found, rest', s')"
    by (metis prod_cases3)
  obtain status2 rest2 s2 where m: "in_air_future_wait (landed_states w) = (status2, rest2, s2)"
    by (metis prod_cases3)
  have 1: "case in_air_future_wait ds of (status, rest, s) \<Rightarrow>
      (status = Timeout \<longrightarrow> subscribed s \<and> \<not> list_ex is_unsubscribe (events s))
    \<and> (list_ex is_unsubscribe (events s) \<longrightarrow> status = Ready)"
    using air [OF a] by (cases status) (auto simp: a)
  have 2: "case get_system ds' of (found, rest, s) \<Rightarrow>
      (found = None \<longrightarrow> subscribed s \<and> \<not> list_ex is_unsubscribe (events s))
    \<and> (list_ex is_unsubscribe (events s) \<longrightarrow> found \<noteq> None)"
    using disc [of ds' rest' s'] g by auto
  have 3: "fst (in_air_future_wait (landed_states w)) = Timeout \<longrightarrow>
      main_in_air v fuel w =
        Exit 1 (events (snd (snd (in_air_future_wait (landed_states w))))
                @ [Cerr [Str ''Takeoff timed out.\<newline>'']])
    \<and> \<not> list_ex is_unsubscribe (run_events (main_in_air v fuel w))"
    using air [OF m] by (auto simp add: main_in_air_def m)
  from 1 2 3 show ?thesis by blast
qed

theorem timeout_keeps_subscription_witness:
  "fst (in_air_future_wait [(100, OnGround), (14000, InAir)]) = Timeout
   \<and> subscribed (snd (snd (in_air_future_wait [(100, OnGround), (14000, InAir)])))
   \<and> fst (get_system [(500, \<lparr>has_autopilot = False\<rparr>)]) = None
   \<and> subscribed (snd (snd (get_system [(500, \<lparr>has_autopilot = False\<rparr>)])))
   \<and> list_ex is_unsubscribe (events (snd (snd (in_air_future_wait (landed_states nominal)))))
   \<and> fst (in_air_future_wait (landed_states nominal)) = Ready
   \<and> list_ex is_unsubscribe (events (snd (snd (get_system (new_systems nominal)))))
   \<and> fst (get_system (new_systems nominal)) \<noteq> None
   \<and> main_in_air Orthogonal 5 (nominal\<lparr>landed_states := [(100, OnGround), (14000, InAir)]\<rparr>) =
       Exit 1 [Subscribe_landed_state Handler, Wait_for 10000, Wait_for 3000,
               Cerr [Str ''Takeoff timed out.\<newline>'']]"
proof -
  let ?w = "nominal\<lparr>landed_states := [(100, OnGround), (14000, InAir)]\<rparr>"
  have h1: "fst (in_air_future_wait [(100, OnGround), (14000, InAir)]) = Timeout"
    by (simp add: silent_in_air)
  have h2: "fst (get_system [(500, \<lparr>has_autopilot = False\<rparr>)]) = None"
    by (simp add: silent_get_system)
  have h3: "list_ex is_unsubscribe (events (snd (snd (in_air_future_wait (landed_states nominal)))))"
    by (simp add: nominal_in_air)
  have h4: "list_ex is_unsubscribe (events (snd (snd (get_system (new_systems nominal)))))"
    by (simp add: nominal_get_system)
  have h5: "fst (in_air_future_wait (landed_states ?w)) = Timeout"
    by (simp add: silent_in_air)
  from timeout_keeps_subscription [of "[(100, OnGround), (14000, InAir)]" "[(500, \<lparr>has_autopilot = False\<rparr>)]" ?w Orthogonal 5]
    h1 h2 h5
  have a: "subscribed (snd (snd (in_air_future_wait [(100, OnGround), (14000, InAir)])))"
    and b: "subscribed (snd (snd (get_system [(500, \<lparr>has_autopilot = False\<rparr>)])))"
    and c: "main_in_air Orthogonal 5 ?w =
        Exit 1 (events (snd (snd (in_air_future_wait (landed_states ?w))))
                @ [Cerr [Str ''Takeoff timed out.\<newline>'']])"
    by (auto split: prod.splits)
  from timeout_keeps_subscription [of "landed_states nominal" "new_systems nominal" ?w Orthogonal 5] h3 h4
  have d: "fst (in_air_future_wait (landed_states nominal)) = Ready"
    and e: "fst (get_system (new_systems nominal)) \<noteq> None"
    by (auto split: prod.splits)
  show ?thesis using h1 h2 h3 h4 a b c d e by (simp add: silent_in_air)
qed

section \<open>Properties of the flight routine\<close>

lemma cerr_not_remote: "is_cerr e \<Longrightarrow> \<not> is_remote_call e"
  by (cases e) simp_all

lemma run_events_preceded_by: "run_events (preceded_by pre r) = pre @ run_events r"
  by (cases r) simp_all

lemma is_exit_preceded_by: "is_exit (preceded_by pre r) = is_exit r"
  by (cases r) simp_all

lemma quiet_simps:
  "quiet []"
  "quiet (e # tr) = (\<not> is_cerr e \<and> \<not> is_remote_call e \<and> quiet tr)"
  "quiet (xs @ ys) = (quiet xs \<and> quiet ys)"
  by (auto simp: quiet_def)

lemma stage_ok_preceded:
  assumes "stage_ok cuts calls ok r" and "\<not> list_ex is_cerr pre"
    and "filter is_remote_call pre = before"
  shows "stage_ok ((@) before ` cuts) (before @ calls) ok (preceded_by pre r)"
  using assms
  by (cases r) (auto simp: stage_ok_def butlast_append)

lemma stage_ok_weaken: "stage_ok cuts calls ok r \<Longrightarrow> cuts \<subseteq> cuts' \<Longrightarrow> stage_ok cuts' calls ok r"
  by (auto simp: stage_ok_def)

lemma health_loop_quiet: "quiet (snd (health_loop n ok i))"
proof (induction n arbitrary: i)
  case 0
  show ?case by (simp add: quiet_simps)
next
  case (Suc n)
  from Suc [of "Suc i"] show ?case
    by (cases "health_loop n ok (Suc i)") (simp add: quiet_simps)
qed

lemma landing_loop_quiet: "quiet (snd (landing_loop n air i))"
proof (induction n arbitrary: i)
  case 0
  show ?case by (simp add: quiet_simps)
next
  case (Suc n)
  from Suc [of "Suc i"] show ?case
    by (cases "landing_loop n air (Suc i)") (simp add: quiet_simps)
qed

lemma quiet_notify_landed: "quiet (events s) \<Longrightarrow> quiet (events (notify on_landed_state x s))"
  by (simp add: notify_def on_landed_state_def set_value_def subscribe_landed_state_def emit_def
      quiet_simps)

lemma quiet_notify_system: "quiet (events s) \<Longrightarrow> quiet (events (notify on_new_system x s))"
  by (simp add: notify_def on_new_system_def set_value_def subscribe_on_new_system_def emit_def
      quiet_simps)

lemma in_air_future_wait_quiet: "quiet (events (snd (snd (in_air_future_wait ds))))"
proof -
  let ?I = "\<lambda>s :: unit handshake. quiet (events s)"
  let ?s0 = "emit (Wait_for (seconds 10)) (subscribe_landed_state Handler
                \<lparr>subscribed = False, promise = None, events = [], clock = 0\<rparr>) :: unit handshake"
  have 0: "?I ?s0"
    by (simp add: subscribe_landed_state_def emit_def quiet_simps)
  obtain st1 ds1 s1 where w1:
    "wait_for on_landed_state (seconds 10) ds ?s0 = (st1, ds1, s1)"
    by (metis prod_cases3)
  have "?I (snd (snd (wait_for on_landed_state (seconds 10) ds ?s0)))"
    by (rule wait_for_invariant [of ?I]) (simp_all add: quiet_notify_landed 0)
  then have 1: "?I (emit (Wait_for (seconds 3)) s1)"
    using w1 by (simp add: emit_def quiet_simps)
  have "?I (snd (snd (wait_for on_landed_state (seconds 3) ds1 (emit (Wait_for (seconds 3)) s1))))"
    by (rule wait_for_invariant [of ?I]) (simp_all add: quiet_notify_landed 1)
  then show ?thesis using w1 by (simp add: in_air_future_wait_def Let_def split: prod.splits)
qed

lemma get_system_quiet:
  "case get_system ds of
     (None, rest, s) \<Rightarrow> events s \<noteq> [] \<and> is_cerr (last (events s)) \<and> quiet (butlast (events s))
   | (Some system, rest, s) \<Rightarrow> quiet (events s)"
proof -
  let ?I = "\<lambda>s :: System handshake. quiet (events s)"
  let ?s1 = "emit (Wait_for (seconds 3)) (subscribe_on_new_system Handler
       \<lparr>subscribed = False, promise = None,
        events = [Cout [Str ''Waiting to discover system...\<newline>'']], clock = 0\<rparr>) :: System handshake"
  have 0: "?I ?s1"
    by (simp add: subscribe_on_new_system_def emit_def quiet_simps)
  have 1: "?I (snd (snd (wait_for on_new_system (seconds 3) ds ?s1)))"
    by (rule wait_for_invariant [of ?I]) (simp_all add: quiet_notify_system 0)
  have 2: "(fst (wait_for on_new_system (seconds 3) ds ?s1) = Ready)
       = (promise (snd (snd (wait_for on_new_system (seconds 3) ds ?s1))) \<noteq> None)"
    by (rule wait_for_status)
  show ?thesis using 1 2
    by (cases "fst (wait_for on_new_system (seconds 3) ds ?s1)")
       (auto simp add: get_system_def Let_def emit_def split: prod.splits option.splits)
qed

lemma offb_ctrl_body_stage:
  "case offb_ctrl_body v ch of (b, tr) \<Rightarrow>
     b = (start_result ch = Offboard_Success \<and> stop_result ch = Offboard_Success)
   \<and> (if b then \<not> list_ex is_cerr tr \<and> filter is_remote_call tr = [Offboard_start, Offboard_stop]
      else tr \<noteq> [] \<and> is_cerr (last tr) \<and> \<not> list_ex is_cerr (butlast tr)
           \<and> filter is_remote_call tr \<in> {[Offboard_start], [Offboard_start, Offboard_stop]})"
  by (cases v; cases "start_result ch = Offboard_Success"; cases "stop_result ch = Offboard_Success")
     (simp_all add: offb_ctrl_body_omnidirectional_def offb_ctrl_body_orthogonal_def Let_def)


lemma main_landing_ok:
  "stage_ok {[Land]} [Land] (land_result w = Action_Success) (main_landing fuel w)"
  using landing_loop_quiet [of fuel "in_air w" 0]
  by (auto simp: main_landing_def stage_ok_def quiet_def split: prod.splits bool.splits)

lemma main_offboard_ok:
  "stage_ok {[Offboard_start], [Offboard_start, Offboard_stop], [Offboard_start, Offboard_stop, Land]}
     [Offboard_start, Offboard_stop, Land]
     (start_result (offboard w) = Offboard_Success \<and> stop_result (offboard w) = Offboard_Success
        \<and> land_result w = Action_Success)
     (main_offboard v fuel w)"
proof -
  obtain b tr where o: "offb_ctrl_body v (offboard w) = (b, tr)" by (cases "offb_ctrl_body v (offboard w)")
  note f = offb_ctrl_body_stage [where v = v and ch = "offboard w", unfolded o prod.case]
  show ?thesis
  proof (cases b)
    case True
    with f have q: "\<not> list_ex is_cerr tr" "filter is_remote_call tr = [Offboard_start, Offboard_stop]"
      and ok: "start_result (offboard w) = Offboard_Success" "stop_result (offboard w) = Offboard_Success"
      by simp_all
    from stage_ok_preceded [OF main_landing_ok q, of w fuel] ok True o show ?thesis
      by (auto simp: main_offboard_def elim: stage_ok_weaken)
  next
    case False
    with f o show ?thesis by (auto simp: main_offboard_def stage_ok_def)
  qed
qed

lemma main_in_air_ok:
  "stage_ok {[], [Offboard_start], [Offboard_start, Offboard_stop],
             [Offboard_start, Offboard_stop, Land]}
     [Offboard_start, Offboard_stop, Land]
     (fst (in_air_future_wait (landed_states w)) = Ready
        \<and> start_result (offboard w) = Offboard_Success \<and> stop_result (offboard w) = Offboard_Success
        \<and> land_result w = Action_Success)
     (main_in_air v fuel w)"
proof -
  obtain status ds s where a: "in_air_future_wait (landed_states w) = (status, ds, s)"
    by (metis prod_cases3)
  from in_air_future_wait_quiet [of "landed_states w"] a
  have q: "\<not> list_ex is_cerr (events s)" "filter is_remote_call (events s) = []"
    by (simp_all add: quiet_def)
  show ?thesis
  proof (cases status)
    case Timeout
    with a q show ?thesis by (simp add: main_in_air_def stage_ok_def)
  next
    case Ready
    from stage_ok_preceded [OF main_offboard_ok q, of w v fuel] Ready a show ?thesis
      by (auto simp: main_in_air_def elim: stage_ok_weaken)
  qed
qed

lemma main_takeoff_ok:
  "stage_ok
     {[Set_takeoff_altitude (takeoff_altitude v), Set_current_speed 0.25, Takeoff],
      [Set_takeoff_altitude (takeoff_altitude v), Set_current_speed 0.25, Takeoff, Offboard_start],
      [Set_takeoff_altitude (takeoff_altitude v), Set_current_speed 0.25, Takeoff, Offboard_start,
       Offboard_stop],
      [Set_takeoff_altitude (takeoff_altitude v), Set_current_speed 0.25, Takeoff, Offboard_start,
       Offboard_stop, Land]}
     [Set_takeoff_altitude (takeoff_altitude v), Set_current_speed 0.25, Takeoff, Offboard_start,
      Offboard_stop, Land]
     (takeoff_result w = Action_Success
        \<and> fst (in_air_future_wait (landed_states w)) = Ready
        \<and> start_result (offboard w) = Offboard_Success \<and> stop_result (offboard w) = Offboard_Success
        \<and> land_result w = Action_Success)
     (main_takeoff v fuel w)"
proof (cases "takeoff_result w = Action_Success")
  case False
  then show ?thesis by (simp add: main_takeoff_def stage_ok_def Let_def)
next
  case True
  have q: "\<not> list_ex is_cerr [Set_takeoff_altitude (takeoff_altitude v), Set_current_speed 0.25, Takeoff]"
    "filter is_remote_call [Set_takeoff_altitude (takeoff_altitude v), Set_current_speed 0.25, Takeoff]
       = [Set_takeoff_altitude (takeoff_altitude v), Set_current_speed 0.25, Takeoff]"
    by simp_all
  from stage_ok_preceded [OF main_in_air_ok q, of w v fuel] True show ?thesis
    by (auto simp: main_takeoff_def Let_def elim: stage_ok_weaken)
qed

lemma main_arm_ok:
  "stage_ok
     {[], [Arm],
      [Arm, Set_takeoff_altitude (takeoff_altitude v), Set_current_speed 0.25, Takeoff],
      [Arm, Set_takeoff_altitude (takeoff_altitude v), Set_current_speed 0.25, Takeoff,
       Offboard_start],
      [Arm, Set_takeoff_altitude (takeoff_altitude v), Set_current_speed 0.25, Takeoff,
       Offboard_start, Offboard_stop],
      [Arm, Set_takeoff_altitude (takeoff_altitude v), Set_current_speed 0.25, Takeoff,
       Offboard_start, Offboard_stop, Land]}
     [Arm, Set_takeoff_altitude (takeoff_altitude v), Set_current_speed 0.25, Takeoff,
      Offboard_start, Offboard_stop, Land]
     (arm_result w = Action_Success
        \<and> takeoff_result w = Action_Success
        \<and> fst (in_air_future_wait (landed_states w)) = Ready
        \<and> start_result (offboard w) = Offboard_Success \<and> stop_result (offboard w) = Offboard_Success
        \<and> land_result w = Action_Success)
     (main_arm v fuel w)"
proof -
  obtain b tr where h: "health_loop fuel (health_all_ok w) 0 = (b, tr)"
    by (cases "health_loop fuel (health_all_ok w) 0")
  from health_loop_quiet [of fuel "health_all_ok w" 0] h
  have q: "\<not> list_ex is_cerr tr" "filter is_remote_call tr = []"
    by (simp_all add: quiet_def)
  show ?thesis
  proof (cases b)
    case False
    with h q show ?thesis by (simp add: main_arm_def stage_ok_def)
  next
    case True
    show ?thesis
    proof (cases "arm_result w = Action_Success")
      case False
      with True h q show ?thesis by (simp add: main_arm_def stage_ok_def Let_def butlast_append)
    next
      case ok: True
      let ?pre = "(tr @ [Cout [Str ''System is ready\<newline>''], Arm]) @ [Cout [Str ''Armed\<newline>'']]"
      have p: "\<not> list_ex is_cerr ?pre" "filter is_remote_call ?pre = [Arm]"
        using q by simp_all
      from stage_ok_preceded [OF main_takeoff_ok p, of v w fuel] True ok h show ?thesis
        by (auto simp: main_arm_def Let_def elim: stage_ok_weaken)
    qed
  qed
qed

lemma main_ok:
  "stage_ok
     {[], [Add_any_connection (connection_url w)],
      [Add_any_connection (connection_url w), Arm],
      [Add_any_connection (connection_url w), Arm,
       Set_takeoff_altitude (takeoff_altitude v), Set_current_speed 0.25, Takeoff],
      [Add_any_connection (connection_url w), Arm,
       Set_takeoff_altitude (takeoff_altitude v), Set_current_speed 0.25, Takeoff, Offboard_start],
      [Add_any_connection (connection_url w), Arm,
       Set_takeoff_altitude (takeoff_altitude v), Set_current_speed 0.25, Takeoff, Offboard_start,
       Offboard_stop],
      plan v w}
     (plan v w)
     (argc w = 2 \<and> connection_result w = Connection_Success
        \<and> fst (get_system (new_systems w)) \<noteq> None
        \<and> arm_result w = Action_Success
        \<and> takeoff_result w = Action_Success
        \<and> fst (in_air_future_wait (landed_states w)) = Ready
        \<and> start_result (offboard w) = Offboard_Success \<and> stop_result (offboard w) = Offboard_Success
        \<and> land_result w = Action_Success)
     (main v fuel w)"
proof (cases "argc w = 2 \<and> connection_result w = Connection_Success")
  case False
  then show ?thesis by (auto simp: main_def stage_ok_def usage_def)
next
  case True
  obtain found ds s where g: "get_system (new_systems w) = (found, ds, s)"
    by (metis prod_cases3)
  note f = get_system_quiet [of "new_systems w", unfolded g prod.case]
  show ?thesis
  proof (cases found)
    case None
    with f have e: "events s \<noteq> []" "is_cerr (last (events s))" "quiet (butlast (events s))"
      by simp_all
    from e(1) have "filter is_remote_call (events s) =
        filter is_remote_call (butlast (events s) @ [last (events s)])"
      by simp
    with e(2,3) have "filter is_remote_call (events s) = []"
      by (simp add: quiet_def cerr_not_remote del: append_butlast_last_id)
    with e True None g show ?thesis
      by (simp add: main_def stage_ok_def quiet_def)
  next
    case (Some system)
    with f have "quiet (events s)" by simp
    then have p: "\<not> list_ex is_cerr (Add_any_connection (connection_url w) # events s)"
      "filter is_remote_call (Add_any_connection (connection_url w) # events s)
         = [Add_any_connection (connection_url w)]"
      by (simp_all add: quiet_def)
    from stage_ok_preceded [OF main_arm_ok p, of v w fuel] True Some g show ?thesis
      by (auto simp: main_def plan_def elim: stage_ok_weaken)
  qed
qed


lemma health_loop_finishes: "ok (i + k) \<Longrightarrow> k < n \<Longrightarrow> fst (health_loop n ok i)"
proof (induction n arbitrary: i k)
  case 0
  then show ?case by simp
next
  case (Suc n)
  show ?case
  proof (cases "ok i")
    case True
    then show ?thesis by simp
  next
    case False
    with Suc.prems obtain k' where k: "k = Suc k'" by (cases k) auto
    with Suc.prems Suc.IH [of "Suc i" k'] False show ?thesis
      by (cases "health_loop n ok (Suc i)") simp
  qed
qed

lemma landing_loop_finishes: "\<not> air (i + k) \<Longrightarrow> k < n \<Longrightarrow> fst (landing_loop n air i)"
proof (induction n arbitrary: i k)
  case 0
  then show ?case by simp
next
  case (Suc n)
  show ?case
  proof (cases "air i")
    case False
    then show ?thesis by simp
  next
    case True
    with Suc.prems obtain k' where k: "k = Suc k'" by (cases k) auto
    with Suc.prems Suc.IH [of "Suc i" k'] True show ?thesis
      by (cases "landing_loop n air (Suc i)") simp
  qed
qed

lemma main_exits:
  assumes "fst (health_loop n (health_all_ok w) 0)" and "fst (landing_loop n (in_air w) 0)"
    and "0 < argc w"
  shows "is_exit (main v n w)"
proof -
  have 1: "is_exit (main_landing n w)"
    using assms(2) by (auto simp: main_landing_def split: prod.splits bool.splits)
  then have 2: "is_exit (main_offboard v n w)"
    by (auto simp: main_offboard_def is_exit_preceded_by split: prod.splits bool.splits)
  then have 3: "is_exit (main_in_air v n w)"
    by (auto simp: main_in_air_def is_exit_preceded_by split: prod.splits)
  then have 4: "is_exit (main_takeoff v n w)"
    by (auto simp: main_takeoff_def is_exit_preceded_by Let_def)
  then have 5: "is_exit (main_arm v n w)"
    using assms(1)
    by (auto simp: main_arm_def is_exit_preceded_by Let_def split: prod.splits bool.splits)
  then show ?thesis
    using assms(3)
    by (auto simp: main_def is_exit_preceded_by split: prod.splits option.splits)
qed

lemma health_loop_never:
  "\<forall>j. \<not> ok j \<Longrightarrow>
   health_loop n ok i =
     (False, concat (replicate n
        [Health_all_ok, Cout [Str ''Waiting for system to be ready\<newline>''],
         Sleep_for (seconds 1)]))"
  by (induction n arbitrary: i) simp_all

lemma get_system_no_remote_call:
  "e \<in> set (events (snd (snd (get_system ds)))) \<Longrightarrow> \<not> is_remote_call e"
proof -
  assume e: "e \<in> set (events (snd (snd (get_system ds))))"
  obtain found rest s where g: "get_system ds = (found, rest, s)" by (metis prod_cases3)
  note f = get_system_quiet [of ds, unfolded g prod.case]
  show ?thesis
  proof (cases found)
    case None
    with f have n: "events s \<noteq> []" "is_cerr (last (events s))" "quiet (butlast (events s))"
      by simp_all
    from n(1) have "set (events s) = set (butlast (events s) @ [last (events s)])"
      by simp
    with e g have "e \<in> set (butlast (events s)) \<or> e = last (events s)"
      by auto
    then show ?thesis
    proof
      assume "e \<in> set (butlast (events s))"
      with n(3) show ?thesis by (auto simp: quiet_def filter_empty_conv)
    next
      assume "e = last (events s)"
      with n(2) show ?thesis by (cases "last (events s)") auto
    qed
  next
    case (Some system)
    with f have "quiet (events s)" by simp
    with e g show ?thesis by (auto simp: quiet_def filter_empty_conv)
  qed
qed

lemma action_calls_of_remote_calls:
  "filter is_action_call tr = filter is_action_call (filter is_remote_call tr)"
proof -
  have "is_action_call e \<Longrightarrow> is_remote_call e" for e by (cases e) simp_all
  then show ?thesis by (auto intro: filter_cong)
qed

lemma nominal_fields:
  "argc nominal = 2"
  "connection_url nominal = ''udp://:14540''"
  "connection_result nominal = Connection_Success"
  "health_all_ok nominal i = (2 \<le> i)"
  "arm_result nominal = Action_Success"
  "takeoff_result nominal = Action_Success"
  "offboard nominal = \<lparr>start_result = Offboard_Success, stop_result = Offboard_Success\<rparr>"
  "land_result nominal = Action_Success"
  "in_air nominal i = (i < 3)"
  by (simp_all add: nominal_def)

lemmas main_defs = main_def main_arm_def main_takeoff_def main_in_air_def main_offboard_def
  main_landing_def offb_ctrl_body_orthogonal_def Let_def

lemma nominal_run:
  "main Orthogonal (Suc (Suc (Suc (Suc 0)))) nominal =
     Exit 0
      [Add_any_connection ''udp://:14540'',
       Cout [Str ''Waiting to discover system...\<newline>''],
       Subscribe_on_new_system Handler, Wait_for 3000,
       Cout [Str ''Discovered autopilot\<newline>''], Subscribe_on_new_system Nullptr,
       Prom_set_value \<lparr>has_autopilot = True\<rparr>,
       Health_all_ok, Cout [Str ''Waiting for system to be ready\<newline>''], Sleep_for 1000,
       Health_all_ok, Cout [Str ''Waiting for system to be ready\<newline>''], Sleep_for 1000,
       Health_all_ok, Cout [Str ''System is ready\<newline>''], Arm, Cout [Str ''Armed\<newline>''],
       Set_takeoff_altitude 1, Set_current_speed 0.25, Takeoff,
       Subscribe_landed_state Handler, Wait_for 10000, Wait_for 3000,
       Cout [Str ''Taking off has finished\<newline>.''], Subscribe_landed_state Nullptr,
       In_air_promise_set_value,
       Cout [Str ''Starting Offboard velocity control in body coordinates\<newline>''],
       Set_velocity_body hover, Offboard_start,
       Cout [Str ''Offboard started\<newline>''],
       Cout [Str ''Hover\<newline>''], Set_velocity_body hover, Sleep_for 2000,
       Cout [Str ''Fly forward\<newline>''], Set_velocity_body fly_forward, Sleep_for 4000,
       Cout [Str ''Hover\<newline>''], Set_velocity_body hover, Sleep_for 2000,
       Offboard_stop, Cout [Str ''Offboard stopped\<newline>''],
       Land,
       In_air, Cout [Str ''Vehicle is landing...\<newline>''], Sleep_for 1000,
       In_air, Cout [Str ''Vehicle is landing...\<newline>''], Sleep_for 1000,
       In_air, Cout [Str ''Vehicle is landing...\<newline>''], Sleep_for 1000,
       In_air, Cout [Str ''Landed!\<newline>''], Sleep_for 3000, Cout [Str ''Finished...\<newline>'']]"
  by (simp add: main_defs nominal_fields nominal_in_air nominal_get_system seconds_def)

lemma landing_loop_result:
  "landing_loop n air i = (True, tr) \<Longrightarrow>
   \<exists>k<n. \<not> air (i + k) \<and> (\<forall>j<k. air (i + j))
     \<and> tr = concat (replicate k
          [In_air, Cout [Str ''Vehicle is landing...\<newline>''], Sleep_for (seconds 1)]) @ [In_air]"
proof (induction n arbitrary: i tr)
  case 0
  then show ?case by simp
next
  case (Suc n)
  show ?case
  proof (cases "air i")
    case False
    with Suc.prems show ?thesis by (intro exI [of _ 0]) simp
  next
    case True
    obtain b tr' where r: "landing_loop n air (Suc i) = (b, tr')"
      by (cases "landing_loop n air (Suc i)")
    with Suc.prems True have b: "b" and tr: "tr =
        [In_air, Cout [Str ''Vehicle is landing...\<newline>''], Sleep_for (seconds 1)] @ tr'"
      by simp_all
    from Suc.IH [of "Suc i" tr'] r b obtain k where k: "k < n" "\<not> air (Suc i + k)"
      "\<forall>j<k. air (Suc i + j)"
      "tr' = concat (replicate k
          [In_air, Cout [Str ''Vehicle is landing...\<newline>''], Sleep_for (seconds 1)]) @ [In_air]"
      by auto
    have "\<forall>j<Suc k. air (i + j)"
    proof (intro allI impI)
      fix j assume "j < Suc k"
      then show "air (i + j)" using True k(3) by (cases j) auto
    qed
    with k tr show ?thesis by (intro exI [of _ "Suc k"]) simp
  qed
qed

lemma grounded_preceded: "grounded w fuel r \<Longrightarrow> grounded w fuel (preceded_by pre r)"
  by (cases r) (auto simp: grounded_def suffix_def)

lemma grounded_exit_1:
  "grounded w fuel (Exit 1 tr)"
  "grounded w fuel (Waiting_for_health tr)"
  "grounded w fuel (Waiting_for_landing tr)"
  "grounded w fuel (Undefined_behaviour tr)"
  by (simp_all add: grounded_def)

lemma main_landing_grounded: "grounded w fuel (main_landing fuel w)"
proof (cases "land_result w = Action_Success")
  case False
  then show ?thesis by (simp add: main_landing_def grounded_def)
next
  case True
  obtain b tr where l: "landing_loop fuel (in_air w) 0 = (b, tr)"
    by (cases "landing_loop fuel (in_air w) 0")
  show ?thesis
  proof (cases b)
    case False
    with True l show ?thesis by (simp add: main_landing_def grounded_def)
  next
    case b: True
    from landing_loop_result [of fuel "in_air w" 0 tr] l b
    obtain k where "k < fuel" "\<not> in_air w k" "\<forall>j<k. in_air w j"
      "tr = concat (replicate k
          [In_air, Cout [Str ''Vehicle is landing...\<newline>''], Sleep_for (seconds 1)]) @ [In_air]"
      by auto
    with True l b show ?thesis
      by (auto simp: main_landing_def grounded_def landing_def)
  qed
qed

lemma main_grounded: "grounded w fuel (main v fuel w)"
proof -
  have 2: "grounded w fuel (main_offboard v fuel w)"
    by (auto simp: main_offboard_def grounded_exit_1 grounded_preceded main_landing_grounded
        split: prod.splits bool.splits)
  then have 3: "grounded w fuel (main_in_air v fuel w)"
    by (auto simp: main_in_air_def grounded_exit_1 grounded_preceded split: prod.splits)
  then have 4: "grounded w fuel (main_takeoff v fuel w)"
    by (auto simp: main_takeoff_def grounded_exit_1 grounded_preceded Let_def)
  then have 5: "grounded w fuel (main_arm v fuel w)"
    by (auto simp: main_arm_def grounded_exit_1 grounded_preceded Let_def
        split: prod.splits bool.splits)
  then show ?thesis
    by (auto simp: main_def grounded_exit_1 grounded_preceded split: prod.splits option.splits)
qed

lemma is_undefined_preceded_by: "is_undefined (preceded_by pre r) = is_undefined r"
  by (cases r) simp_all

lemma main_undefined: "is_undefined (main v fuel w) = (argc w \<le> 0)"
proof -
  have 1: "\<not> is_undefined (main_landing fuel w)"
    by (auto simp: main_landing_def split: prod.splits bool.splits)
  then have 2: "\<not> is_undefined (main_offboard v fuel w)"
    by (auto simp: main_offboard_def is_undefined_preceded_by split: prod.splits bool.splits)
  then have 3: "\<not> is_undefined (main_in_air v fuel w)"
    by (auto simp: main_in_air_def is_undefined_preceded_by split: prod.splits)
  then have 4: "\<not> is_undefined (main_takeoff v fuel w)"
    by (auto simp: main_takeoff_def is_undefined_preceded_by Let_def)
  then have 5: "\<not> is_undefined (main_arm v fuel w)"
    by (auto simp: main_arm_def is_undefined_preceded_by Let_def split: prod.splits bool.splits)
  then show ?thesis
    by (auto simp: main_def is_undefined_preceded_by split: prod.splits option.splits)
qed

text \<open>
  With at least the program name in the argument vector the exit code is as the
  specification says. A run of \<^verbatim>\<open>main\<close> that returns, returns 0 or 1. It returns 0
  exactly when the argument count is 2 and the connection, the discovery, arming,
  the takeoff, the takeoff check, the start and the stop of the velocity control
  and the landing all succeed; then it has reported no failure, has made the
  remote calls of the complete flight, and ends with the landing stage, the
  in-air poll having answered false. When it returns 1, the failure report is
  the last event of the run and the only one: nothing is executed after a
  failure. On every run the remote calls made are an initial part of those of
  the complete flight, so none is made twice. With an argument count other than
  2 and above 0, \<^verbatim>\<open>main\<close> prints the usage text and returns 1. The run ends in
  undefined behaviour exactly when the argument count is 0. Otherwise \<^verbatim>\<open>main\<close>
  does return once the health check eventually answers true and the in-air
  check eventually answers false.
\<close>

lemma exit_code:
  "(main v fuel w = Exit c tr \<longrightarrow>
      0 < argc w
    \<and> (c = 0 \<or> c = 1)
    \<and> (c = 0) =
        (argc w = 2 \<and> connection_result w = Connection_Success
          \<and> fst (get_system (new_systems w)) \<noteq> None
          \<and> arm_result w = Action_Success
          \<and> takeoff_result w = Action_Success
          \<and> fst (in_air_future_wait (landed_states w)) = Ready
          \<and> start_result (offboard w) = Offboard_Success
          \<and> stop_result (offboard w) = Offboard_Success
          \<and> land_result w = Action_Success)
    \<and> (c = 0 \<longrightarrow> \<not> list_ex is_cerr tr \<and> filter is_remote_call tr = plan v w
          \<and> (\<exists>k<fuel. \<not> in_air w k \<and> (\<forall>j<k. in_air w j) \<and> suffix (landing k) tr))
    \<and> (c = 1 \<longrightarrow> tr \<noteq> [] \<and> is_cerr (last tr) \<and> \<not> list_ex is_cerr (butlast tr)))
 \<and> prefix (filter is_remote_call (run_events (main v fuel w))) (plan v w)
 \<and> distinct (filter is_remote_call (run_events (main v fuel w)))
 \<and> (0 < argc w \<and> argc w \<noteq> 2 \<longrightarrow> main v fuel w = Exit 1 (usage (bin_name w)))
 \<and> is_undefined (main v fuel w) = (argc w \<le> 0)
 \<and> (0 < argc w \<and> (\<exists>i. health_all_ok w i) \<and> (\<exists>j. \<not> in_air w j) \<longrightarrow>
      (\<exists>n c' tr'. main v n w = Exit c' tr'))"
proof -
  note m = main_ok [of w v fuel, unfolded stage_ok_def]
  have 1: "main v fuel w = Exit c tr \<longrightarrow>
      0 < argc w
    \<and> (c = 0 \<or> c = 1)
    \<and> (c = 0) =
        (argc w = 2 \<and> connection_result w = Connection_Success
          \<and> fst (get_system (new_systems w)) \<noteq> None
          \<and> arm_result w = Action_Success
          \<and> takeoff_result w = Action_Success
          \<and> fst (in_air_future_wait (landed_states w)) = Ready
          \<and> start_result (offboard w) = Offboard_Success
          \<and> stop_result (offboard w) = Offboard_Success
          \<and> land_result w = Action_Success)
    \<and> (c = 0 \<longrightarrow> \<not> list_ex is_cerr tr \<and> filter is_remote_call tr = plan v w
          \<and> (\<exists>k<fuel. \<not> in_air w k \<and> (\<forall>j<k. in_air w j) \<and> suffix (landing k) tr))
    \<and> (c = 1 \<longrightarrow> tr \<noteq> [] \<and> is_cerr (last tr) \<and> \<not> list_ex is_cerr (butlast tr))"
  proof
    assume e: "main v fuel w = Exit c tr"
    have a: "0 < argc w"
      using main_undefined [of v fuel w] e by (cases "argc w \<le> 0") auto
    have g: "c = 0 \<longrightarrow>
        (\<exists>k<fuel. \<not> in_air w k \<and> (\<forall>j<k. in_air w j) \<and> suffix (landing k) tr)"
      using main_grounded [of w fuel v] e by (simp add: grounded_def)
    from m [THEN conjunct2, unfolded e run.case] a g show "0 < argc w
    \<and> (c = 0 \<or> c = 1)
    \<and> (c = 0) =
        (argc w = 2 \<and> connection_result w = Connection_Success
          \<and> fst (get_system (new_systems w)) \<noteq> None
          \<and> arm_result w = Action_Success
          \<and> takeoff_result w = Action_Success
          \<and> fst (in_air_future_wait (landed_states w)) = Ready
          \<and> start_result (offboard w) = Offboard_Success
          \<and> stop_result (offboard w) = Offboard_Success
          \<and> land_result w = Action_Success)
    \<and> (c = 0 \<longrightarrow> \<not> list_ex is_cerr tr \<and> filter is_remote_call tr = plan v w
          \<and> (\<exists>k<fuel. \<not> in_air w k \<and> (\<forall>j<k. in_air w j) \<and> suffix (landing k) tr))
    \<and> (c = 1 \<longrightarrow> tr \<noteq> [] \<and> is_cerr (last tr) \<and> \<not> list_ex is_cerr (butlast tr))"
      by (simp split: if_splits)
  qed
  from m [THEN conjunct1]
  have 2: "prefix (filter is_remote_call (run_events (main v fuel w))) (plan v w)"
    by (auto simp: plan_def)
  have "distinct (plan v w)" by (simp add: plan_def)
  with 2 have 3: "distinct (filter is_remote_call (run_events (main v fuel w)))"
    by (metis distinct_append prefix_def)
  have 4: "0 < argc w \<and> (\<exists>i. health_all_ok w i) \<and> (\<exists>j. \<not> in_air w j) \<longrightarrow>
      (\<exists>n c' tr'. main v n w = Exit c' tr')"
  proof
    assume h: "0 < argc w \<and> (\<exists>i. health_all_ok w i) \<and> (\<exists>j. \<not> in_air w j)"
    then obtain i j where i: "health_all_ok w i" and j: "\<not> in_air w j" by blast
    have "fst (health_loop (Suc (max i j)) (health_all_ok w) 0)"
      by (rule health_loop_finishes [of _ 0 i]) (simp_all add: i)
    moreover have "fst (landing_loop (Suc (max i j)) (in_air w) 0)"
      by (rule landing_loop_finishes [of _ 0 j]) (simp_all add: j)
    moreover from h have "0 < argc w" by simp
    ultimately have "is_exit (main v (Suc (max i j)) w)" by (rule main_exits)
    then show "\<exists>n c' tr'. main v n w = Exit c' tr'"
      by (cases "main v (Suc (max i j)) w") auto
  qed
  have 5: "0 < argc w \<and> argc w \<noteq> 2 \<longrightarrow> main v fuel w = Exit 1 (usage (bin_name w))"
    by (simp add: main_def)
  from 1 2 3 4 5 main_undefined [of v fuel w] show ?thesis by blast
qed

text \<open>
  Claim C7 asks for exit code 1 on every failure, a wrong argument count among
  them. With an argument count of 0, \<^verbatim>\<open>argv[0]\<close> is the null pointer and
  \<^verbatim>\<open>usage(argv[0])\<close> builds a string from it: \<^verbatim>\<open>main\<close> ends in undefined behaviour,
  with nothing printed and no exit code 1. With the other wrong counts, 1 and 3
  here, it prints the usage text and returns 1, as the claim says.
\<close>

theorem wrong_argument_count:
  "main v fuel (w\<lparr>argc := 0\<rparr>) = Undefined_behaviour []
   \<and> main v fuel (w\<lparr>argc := 1\<rparr>) = Exit 1 (usage (bin_name w))
   \<and> main v fuel (w\<lparr>argc := 3\<rparr>) = Exit 1 (usage (bin_name w))"
  by (simp add: main_def)

text \<open>
  Claim C8. When discovery has succeeded and \<^verbatim>\<open>health_all_ok()\<close> never answers true,
  \<^verbatim>\<open>main\<close> is still in its health loop after any number of polls: each poll is
  followed by the message and a sleep of one second, \<^verbatim>\<open>arm()\<close> has not been called,
  and \<^verbatim>\<open>main\<close> has not returned.
\<close>

theorem health_never_ok:
  assumes "argc w = 2" and "connection_result w = Connection_Success"
    and "fst (get_system (new_systems w)) \<noteq> None" and "\<forall>i. \<not> health_all_ok w i"
  shows "main v fuel w =
           Waiting_for_health
             (Add_any_connection (connection_url w) # events (snd (snd (get_system (new_systems w))))
              @ concat (replicate fuel
                  [Health_all_ok, Cout [Str ''Waiting for system to be ready\<newline>''],
                   Sleep_for (seconds 1)]))
       \<and> Arm \<notin> set (run_events (main v fuel w))
       \<and> (\<forall>c tr. main v fuel w \<noteq> Exit c tr)"
proof -
  have a: "main_arm v fuel w = Waiting_for_health (concat (replicate fuel
                  [Health_all_ok, Cout [Str ''Waiting for system to be ready\<newline>''],
                   Sleep_for (seconds 1)]))"
    using health_loop_never [OF assms(4), of fuel 0] by (simp add: main_arm_def)
  have m: "main v fuel w =
           Waiting_for_health
             (Add_any_connection (connection_url w) # events (snd (snd (get_system (new_systems w))))
              @ concat (replicate fuel
                  [Health_all_ok, Cout [Str ''Waiting for system to be ready\<newline>''],
                   Sleep_for (seconds 1)]))"
    using assms(1-3) by (auto simp: main_def a split: prod.splits option.splits)
  have "Arm \<notin> set (events (snd (snd (get_system (new_systems w)))))"
    using get_system_no_remote_call [of Arm "new_systems w"] by auto
  then have "Arm \<notin> set (run_events (main v fuel w))"
    by (auto simp: m)
  with m show ?thesis by simp
qed

theorem health_never_ok_witness:
  "argc (nominal\<lparr>health_all_ok := (\<lambda>i. False)\<rparr>) = 2
   \<and> connection_result (nominal\<lparr>health_all_ok := (\<lambda>i. False)\<rparr>) = Connection_Success
   \<and> fst (get_system (new_systems (nominal\<lparr>health_all_ok := (\<lambda>i. False)\<rparr>))) \<noteq> None
   \<and> (\<forall>i. \<not> health_all_ok (nominal\<lparr>health_all_ok := (\<lambda>i. False)\<rparr>) i)
   \<and> main Orthogonal (Suc (Suc 0)) (nominal\<lparr>health_all_ok := (\<lambda>i. False)\<rparr>) =
       Waiting_for_health
         [Add_any_connection ''udp://:14540'',
          Cout [Str ''Waiting to discover system...\<newline>''],
          Subscribe_on_new_system Handler, Wait_for 3000,
          Cout [Str ''Discovered autopilot\<newline>''], Subscribe_on_new_system Nullptr,
          Prom_set_value \<lparr>has_autopilot = True\<rparr>,
          Health_all_ok, Cout [Str ''Waiting for system to be ready\<newline>''], Sleep_for 1000,
          Health_all_ok, Cout [Str ''Waiting for system to be ready\<newline>''], Sleep_for 1000]"
proof -
  let ?w = "nominal\<lparr>health_all_ok := (\<lambda>i. False)\<rparr>"
  have h1: "argc ?w = 2" and h2: "connection_result ?w = Connection_Success"
    and h3: "fst (get_system (new_systems ?w)) \<noteq> None" and h4: "\<forall>i. \<not> health_all_ok ?w i"
    by (simp_all add: nominal_fields nominal_get_system)
  from health_never_ok [OF h1 h2 h3 h4, of Orthogonal "Suc (Suc 0)"] show ?thesis
    using h1 h2 h3 h4 by (simp add: nominal_fields nominal_get_system seconds_def)
qed

text \<open>
  Claim C10. On every run of \<^verbatim>\<open>main\<close>, the calls to the action plugin are none, or
  \<^verbatim>\<open>arm\<close> alone, or \<^verbatim>\<open>arm\<close>, \<^verbatim>\<open>set_takeoff_altitude\<close>, \<^verbatim>\<open>set_current_speed(0.25)\<close>,
  \<^verbatim>\<open>takeoff\<close>, possibly followed by \<^verbatim>\<open>land\<close>: the altitude and the speed are set
  exactly once, after \<^verbatim>\<open>arm\<close> and before \<^verbatim>\<open>takeoff\<close>, on the runs that reach the
  takeoff, and on no other run. A run that reaches the takeoff has armed
  successfully. The altitude is 1.5 in the omnidirectional program and 1.0 in
  the orthogonal one.
\<close>

theorem takeoff_configuration:
  "filter is_action_call (run_events (main v fuel w)) \<in>
      {[], [Arm],
       [Arm, Set_takeoff_altitude (takeoff_altitude v), Set_current_speed 0.25, Takeoff],
       [Arm, Set_takeoff_altitude (takeoff_altitude v), Set_current_speed 0.25, Takeoff, Land]}
   \<and> (Takeoff \<in> set (run_events (main v fuel w)) \<longrightarrow> arm_result w = Action_Success)
   \<and> takeoff_altitude Omnidirectional = 1.5 \<and> takeoff_altitude Orthogonal = 1.0"
proof -
  define calls where "calls = filter is_remote_call (run_events (main v fuel w))"
  have ac: "filter is_action_call (run_events (main v fuel w)) = filter is_action_call calls"
    unfolding calls_def by (rule action_calls_of_remote_calls)
  from main_ok [of w v fuel, unfolded stage_ok_def, THEN conjunct1]
  have "calls \<in>
     {[], [Add_any_connection (connection_url w)],
      [Add_any_connection (connection_url w), Arm],
      [Add_any_connection (connection_url w), Arm,
       Set_takeoff_altitude (takeoff_altitude v), Set_current_speed 0.25, Takeoff],
      [Add_any_connection (connection_url w), Arm,
       Set_takeoff_altitude (takeoff_altitude v), Set_current_speed 0.25, Takeoff, Offboard_start],
      [Add_any_connection (connection_url w), Arm,
       Set_takeoff_altitude (takeoff_altitude v), Set_current_speed 0.25, Takeoff, Offboard_start,
       Offboard_stop],
      plan v w}"
    by (simp only: calls_def)
  then have 1: "filter is_action_call (run_events (main v fuel w)) \<in>
      {[], [Arm],
       [Arm, Set_takeoff_altitude (takeoff_altitude v), Set_current_speed 0.25, Takeoff],
       [Arm, Set_takeoff_altitude (takeoff_altitude v), Set_current_speed 0.25, Takeoff, Land]}"
    unfolding ac by (auto simp: plan_def)
  have 2: "Takeoff \<notin> set (run_events (main v fuel w))" if f: "arm_result w \<noteq> Action_Success"
  proof -
    obtain b tr where h: "health_loop fuel (health_all_ok w) 0 = (b, tr)"
      by (cases "health_loop fuel (health_all_ok w) 0")
    from health_loop_quiet [of fuel "health_all_ok w" 0] h have "Takeoff \<notin> set tr"
      by (auto simp: quiet_def filter_empty_conv)
    with f h have a: "Takeoff \<notin> set (run_events (main_arm v fuel w))"
      by (cases b) (simp_all add: main_arm_def Let_def)
    have g: "Takeoff \<notin> set (events (snd (snd (get_system (new_systems w)))))"
      using get_system_no_remote_call [of Takeoff "new_systems w"] by auto
    show ?thesis using a g
      by (auto simp: main_def usage_def run_events_preceded_by split: prod.splits option.splits)
  qed
  from 1 2 show ?thesis by auto
qed

theorem takeoff_configuration_witness:
  "Takeoff \<in> set (run_events (main Orthogonal (Suc (Suc (Suc (Suc 0)))) nominal))
   \<and> arm_result nominal = Action_Success
   \<and> filter is_action_call (run_events (main Orthogonal (Suc (Suc (Suc (Suc 0)))) nominal)) =
       [Arm, Set_takeoff_altitude 1, Set_current_speed 0.25, Takeoff, Land]"
proof -
  let ?n = "Suc (Suc (Suc (Suc 0)))"
  have h: "Takeoff \<in> set (run_events (main Orthogonal ?n nominal))"
    by (simp add: nominal_run)
  from takeoff_configuration [of Orthogonal ?n nominal] h have "arm_result nominal = Action_Success"
    by blast
  with h show ?thesis by (simp add: nominal_run)
qed

end
